theory Spec2Isabelle
  imports Complex_Main "HOL-Library.Word" "HOL-Library.AList" "HOL-Library.List_Lexorder"
begin

section \<open>Python values, errors and numpy floats\<close>

text \<open>
  A shallow embedding of \<^verbatim>\<open>echopype/convert/parse_azfp.py\<close> (class \<^verbatim>\<open>ParseAZFP\<close>).
  Bytes are 8-bit words, Python integers are \<open>int\<close>. Every exception the source can raise
  is a value of type \<open>error\<close>, and a function that can raise returns \<open>error + 'a\<close>.
\<close>

type_synonym byte = "8 word"

datatype error =
    StructError
  | IndexError
  | TypeError
  | AttributeError
  | ZeroDivisionError
  | UnboundLocalError
  | OverflowError
  | AxisError
  | ValueError string

definition bind_err :: "error + 'a \<Rightarrow> ('a \<Rightarrow> error + 'b) \<Rightarrow> error + 'b" where
  "bind_err m f = (case m of Inl e \<Rightarrow> Inl e | Inr x \<Rightarrow> f x)"

text \<open>
  A float (Python \<^verbatim>\<open>float\<close> or \<^verbatim>\<open>numpy.float64\<close>) is one of the IEEE special values or
  a finite value. Finite values are idealised as reals: rounding and overflow of finite
  results are not modelled. The special values follow IEEE 754 (signed zeros apart).
\<close>

datatype npfloat = Fin real | PInf | NInf | NaN

definition fl_of_int :: "int \<Rightarrow> npfloat" where
  "fl_of_int i = Fin (of_int i)"

fun fl_neg :: "npfloat \<Rightarrow> npfloat" where
  "fl_neg (Fin x) = Fin (- x)"
| "fl_neg PInf = NInf"
| "fl_neg NInf = PInf"
| "fl_neg NaN = NaN"

fun fl_add :: "npfloat \<Rightarrow> npfloat \<Rightarrow> npfloat" where
  "fl_add NaN _ = NaN"
| "fl_add _ NaN = NaN"
| "fl_add (Fin x) (Fin y) = Fin (x + y)"
| "fl_add PInf NInf = NaN"
| "fl_add NInf PInf = NaN"
| "fl_add PInf _ = PInf"
| "fl_add NInf _ = NInf"
| "fl_add (Fin x) y = y"

definition fl_sub :: "npfloat \<Rightarrow> npfloat \<Rightarrow> npfloat" where
  "fl_sub a b = fl_add a (fl_neg b)"

text \<open>The infinity with the sign of a non-zero real; \<open>inf * 0\<close> is NaN.\<close>

definition inf_signed :: "real \<Rightarrow> npfloat" where
  "inf_signed x = (if x = 0 then NaN else if 0 < x then PInf else NInf)"

fun fl_mul :: "npfloat \<Rightarrow> npfloat \<Rightarrow> npfloat" where
  "fl_mul NaN _ = NaN"
| "fl_mul _ NaN = NaN"
| "fl_mul (Fin x) (Fin y) = Fin (x * y)"
| "fl_mul (Fin x) PInf = inf_signed x"
| "fl_mul (Fin x) NInf = inf_signed (- x)"
| "fl_mul PInf (Fin y) = inf_signed y"
| "fl_mul NInf (Fin y) = inf_signed (- y)"
| "fl_mul PInf PInf = PInf"
| "fl_mul NInf NInf = PInf"
| "fl_mul PInf NInf = NInf"
| "fl_mul NInf PInf = NInf"

text \<open>
  numpy's true division: a zero divisor gives an infinity or NaN (with a warning), never
  an exception.
\<close>

fun np_divide :: "npfloat \<Rightarrow> npfloat \<Rightarrow> npfloat" where
  "np_divide NaN _ = NaN"
| "np_divide _ NaN = NaN"
| "np_divide (Fin x) (Fin y) = (if y = 0 then inf_signed x else Fin (x / y))"
| "np_divide (Fin x) _ = Fin 0"
| "np_divide PInf (Fin y) = (if 0 \<le> y then PInf else NInf)"
| "np_divide NInf (Fin y) = (if 0 \<le> y then NInf else PInf)"
| "np_divide _ _ = NaN"

text \<open>Python's \<^verbatim>\<open>/\<close> on two Python floats raises on a zero divisor.\<close>

definition py_truediv :: "npfloat \<Rightarrow> npfloat \<Rightarrow> error + npfloat" where
  "py_truediv a b = (if b = Fin 0 then Inl ZeroDivisionError else Inr (np_divide a b))"

fun np_log :: "npfloat \<Rightarrow> npfloat" where
  "np_log (Fin x) = (if x = 0 then NInf else if x < 0 then NaN else Fin (ln x))"
| "np_log PInf = PInf"
| "np_log NInf = NaN"
| "np_log NaN = NaN"

fun np_log10 :: "npfloat \<Rightarrow> npfloat" where
  "np_log10 (Fin x) = (if x = 0 then NInf else if x < 0 then NaN else Fin (log 10 x))"
| "np_log10 PInf = PInf"
| "np_log10 NInf = NaN"
| "np_log10 NaN = NaN"

fun np_sqrt :: "npfloat \<Rightarrow> npfloat" where
  "np_sqrt (Fin x) = (if x < 0 then NaN else Fin (sqrt x))"
| "np_sqrt PInf = PInf"
| "np_sqrt NInf = NaN"
| "np_sqrt NaN = NaN"

fun np_cos :: "npfloat \<Rightarrow> npfloat" where
  "np_cos (Fin x) = Fin (cos x)"
| "np_cos _ = NaN"

fun np_isinf :: "npfloat \<Rightarrow> bool" where
  "np_isinf PInf = True"
| "np_isinf NInf = True"
| "np_isinf _ = False"

text \<open>
  \<^verbatim>\<open>np.isclose(a, 0)\<close> with the default tolerances (\<^verbatim>\<open>rtol=1e-05, atol=1e-08\<close>) tests
  \<open>\<bar>a - 0\<bar> \<le> atol + rtol * \<bar>0\<bar>\<close>; NaN and the infinities are never close to 0.
\<close>

definition np_isclose_atol :: real where
  "np_isclose_atol = 1 / 10 ^ 8"

fun np_isclose0 :: "npfloat \<Rightarrow> bool" where
  "np_isclose0 (Fin x) = (\<bar>x\<bar> \<le> np_isclose_atol)"
| "np_isclose0 _ = False"

section \<open>Sequences: indexing and slicing as Python does them\<close>

text \<open>\<^verbatim>\<open>xs[i]\<close>: an index below 0 counts from the end, one outside the sequence raises.\<close>

definition py_index :: "'a list \<Rightarrow> int \<Rightarrow> error + 'a" where
  "py_index xs i =
     (if 0 \<le> i \<and> i < int (length xs) then Inr (xs ! nat i)
      else if i < 0 \<and> - int (length xs) \<le> i then Inr (xs ! nat (int (length xs) + i))
      else Inl IndexError)"

definition py_slice_bound :: "int \<Rightarrow> int \<Rightarrow> nat" where
  "py_slice_bound n i = (if i < 0 then nat (max (i + n) 0) else nat (min i n))"

definition py_slice :: "'a list \<Rightarrow> int \<Rightarrow> int \<Rightarrow> 'a list" where
  "py_slice xs lo hi =
     (let n = int (length xs); l = py_slice_bound n lo; h = py_slice_bound n hi
      in take (h - l) (drop l xs))"

section \<open>The binary stream and struct.unpack\<close>

text \<open>
  The open file is the list of bytes not read yet. \<^verbatim>\<open>raw.read(n)\<close> returns at most
  \<open>n\<close> bytes and advances the stream past them.
\<close>

type_synonym stream = "byte list"

definition read_bytes :: "stream \<Rightarrow> nat \<Rightarrow> byte list \<times> stream" where
  "read_bytes raw n = (take n raw, drop n raw)"

text \<open>
  \<^verbatim>\<open>struct.unpack\<close> with a big-endian format of the codes \<^verbatim>\<open>H\<close> (2 bytes),
  \<^verbatim>\<open>I\<close> (4 bytes) and \<^verbatim>\<open>B\<close> (1 byte), all unsigned. It raises \<^verbatim>\<open>struct.error\<close>
  unless the buffer has exactly the size of the format.
\<close>

definition code_size :: "char \<Rightarrow> nat" where
  "code_size c = (if c = CHR ''H'' then 2 else if c = CHR ''I'' then 4 else 1)"

fun calcsize :: "string \<Rightarrow> nat" where
  "calcsize [] = 0"
| "calcsize (c # cs) = (if c = CHR ''>'' then calcsize cs else code_size c + calcsize cs)"

fun be_uint :: "byte list \<Rightarrow> int" where
  "be_uint [] = 0"
| "be_uint (b # bs) = uint b * 256 ^ length bs + be_uint bs"

fun unpack_items :: "string \<Rightarrow> byte list \<Rightarrow> int list" where
  "unpack_items [] bs = []"
| "unpack_items (c # cs) bs =
     (if c = CHR ''>'' then unpack_items cs bs
      else be_uint (take (code_size c) bs) # unpack_items cs (drop (code_size c) bs))"

definition unpack :: "string \<Rightarrow> byte list \<Rightarrow> error + int list" where
  "unpack fmt buf =
     (if length buf \<noteq> calcsize fmt then Inl StructError else Inr (unpack_items fmt buf))"

section \<open>Module constants\<close>

type_synonym header_field = "string \<times> string \<times> nat option"

definition HEADER_FIELDS :: "header_field list" where
  "HEADER_FIELDS =
    [(''profile_flag'', ''u2'', None),
     (''profile_number'', ''u2'', None),
     (''serial_number'', ''u2'', None),
     (''ping_status'', ''u2'', None),
     (''burst_int'', ''u4'', None),
     (''year'', ''u2'', None),
     (''month'', ''u2'', None),
     (''day'', ''u2'', None),
     (''hour'', ''u2'', None),
     (''minute'', ''u2'', None),
     (''second'', ''u2'', None),
     (''hundredths'', ''u2'', None),
     (''dig_rate'', ''u2'', Some 4),
     (''lockout_index'', ''u2'', Some 4),
     (''num_bins'', ''u2'', Some 4),
     (''range_samples_per_bin'', ''u2'', Some 4),
     (''ping_per_profile'', ''u2'', None),
     (''avg_pings'', ''u2'', None),
     (''num_acq_pings'', ''u2'', None),
     (''ping_period'', ''u2'', None),
     (''first_ping'', ''u2'', None),
     (''last_ping'', ''u2'', None),
     (''data_type'', ''u1'', Some 4),
     (''data_error'', ''u2'', None),
     (''phase'', ''u1'', None),
     (''overrun'', ''u1'', None),
     (''num_chan'', ''u1'', None),
     (''gain'', ''u1'', Some 4),
     (''spare_chan'', ''u1'', None),
     (''pulse_length'', ''u2'', Some 4),
     (''board_num'', ''u2'', Some 4),
     (''frequency'', ''u2'', Some 4),
     (''sensor_flag'', ''u2'', None),
     (''ancillary'', ''u2'', Some 5),
     (''ad'', ''u2'', Some 2)]"

definition HEADER_SIZE :: nat where
  "HEADER_SIZE = 124"

definition HEADER_FORMAT :: string where
  "HEADER_FORMAT = ''>HHHHIHHHHHHHHHHHHHHHHHHHHHHHHHHHHHBBBBHBBBBBBBBHHHHHHHHHHHHHHHHHHHH''"

definition FILE_TYPE :: int where
  "FILE_TYPE = 64770"

section \<open>Parser state\<close>

text \<open>
  \<^verbatim>\<open>self.parameters\<close> as filled by \<^verbatim>\<open>load_AZFP_xml\<close>: the channel count, the scalar
  float parameters (every name of \<^verbatim>\<open>XML_FLOAT_PARAMS\<close> is present) and the per-channel
  vector \<^verbatim>\<open>DS\<close>. The other entries are not read by the functions modelled here.
\<close>

record parameters =
  num_freq :: int
  float_params :: "string \<Rightarrow> npfloat"
  DS :: "npfloat list"

text \<open>
  One channel's entry of \<^verbatim>\<open>vv_tmp\<close>: the initial \<^verbatim>\<open>[]\<close>, the tuple of raw counts, or
  the float array of averaged counts.
\<close>

datatype chanvec = EmptyList | RawCounts "int list" | AvgCounts "npfloat list"

datatype pyval = VInt int | VTuple "int list" | VFloat npfloat | VCounts "chanvec list"

text \<open>
  A value of \<^verbatim>\<open>self.unpacked_data\<close>: the Python list appended to once per ping, or the
  numpy array (0-d or 1-d) a field is collapsed to by \<^verbatim>\<open>_check_uniqueness\<close>.
\<close>

datatype pyobj = PList "pyval list" | NDArray0 int | NDArray1 "int list"

text \<open>
  \<^verbatim>\<open>self.unpacked_data\<close> is a \<^verbatim>\<open>defaultdict(list)\<close>: an association list in insertion
  order, where a missing key reads as the empty list. (That a read also inserts the missing
  key is not modelled; no function below tests emptiness after a read.)
\<close>

type_synonym unpacked = "(string \<times> pyobj) list"

definition dd_get :: "unpacked \<Rightarrow> string \<Rightarrow> pyobj" where
  "dd_get ud k = (case map_of ud k of None \<Rightarrow> PList [] | Some v \<Rightarrow> v)"

definition dd_set :: "string \<Rightarrow> pyobj \<Rightarrow> unpacked \<Rightarrow> unpacked" where
  "dd_set k v ud = AList.update k v ud"

text \<open>\<^verbatim>\<open>self.unpacked_data[k].append(v)\<close>; a numpy array has no \<^verbatim>\<open>append\<close>.\<close>

definition dd_append :: "string \<Rightarrow> pyval \<Rightarrow> unpacked \<Rightarrow> error + unpacked" where
  "dd_append k v ud =
     (case dd_get ud k of
        PList xs \<Rightarrow> Inr (dd_set k (PList (xs @ [v])) ud)
      | _ \<Rightarrow> Inl AttributeError)"

text \<open>\<^verbatim>\<open>self.unpacked_data[k][i]\<close>.\<close>

definition get_item :: "unpacked \<Rightarrow> string \<Rightarrow> int \<Rightarrow> error + pyval" where
  "get_item ud k i =
     (case dd_get ud k of
        PList xs \<Rightarrow> py_index xs i
      | NDArray0 _ \<Rightarrow> Inl IndexError
      | NDArray1 vs \<Rightarrow> bind_err (py_index vs i) (\<lambda>v. Inr (VInt v)))"

text \<open>\<^verbatim>\<open>self.unpacked_data[k][i]\<close> used as an integer.\<close>

definition get_int :: "unpacked \<Rightarrow> string \<Rightarrow> int \<Rightarrow> error + int" where
  "get_int ud k i =
     bind_err (get_item ud k i) (\<lambda>v. case v of VInt n \<Rightarrow> Inr n | _ \<Rightarrow> Inl TypeError)"

text \<open>\<^verbatim>\<open>self.unpacked_data[k][i][j]\<close>: the entry must be a tuple.\<close>

definition get_sub :: "unpacked \<Rightarrow> string \<Rightarrow> int \<Rightarrow> int \<Rightarrow> error + int" where
  "get_sub ud k i j =
     bind_err (get_item ud k i)
       (\<lambda>v. case v of VTuple t \<Rightarrow> py_index t j | _ \<Rightarrow> Inl TypeError)"

definition get_float :: "unpacked \<Rightarrow> string \<Rightarrow> int \<Rightarrow> error + npfloat" where
  "get_float ud k i =
     bind_err (get_item ud k i)
       (\<lambda>v. case v of VFloat x \<Rightarrow> Inr x | VInt n \<Rightarrow> Inr (fl_of_int n) | _ \<Rightarrow> Inl TypeError)"

section \<open>The header decoder \<^verbatim>\<open>_split_header\<close>\<close>

definition firmware_freq_len :: int where
  "firmware_freq_len = 4"

definition field_w_freq :: "string list" where
  "field_w_freq =
     [''dig_rate'', ''lockout_index'', ''num_bins'', ''range_samples_per_bin'',
      ''data_type'', ''gain'', ''pulse_length'', ''board_num'', ''frequency'']"

text \<open>
  The loop \<^verbatim>\<open>for field in HEADER_FIELDS\<close>, with \<^verbatim>\<open>header_byte_cnt\<close> threaded through;
  the final count is returned along with the dataset.
\<close>

fun split_fields ::
  "int \<Rightarrow> int list \<Rightarrow> header_field list \<Rightarrow> int \<Rightarrow> unpacked \<Rightarrow> error + (int \<times> unpacked)" where
  "split_fields nf hu [] cnt ud = Inr (cnt, ud)"
| "split_fields nf hu ((name, ty, len) # fs) cnt ud =
     (if name \<in> set field_w_freq then
        bind_err (dd_append name (VTuple (py_slice hu cnt (cnt + nf))) ud)
          (split_fields nf hu fs (cnt + firmware_freq_len))
      else case len of
        Some k \<Rightarrow>
          bind_err (dd_append name (VTuple (py_slice hu cnt (cnt + int k))) ud)
            (split_fields nf hu fs (cnt + int k))
      | None \<Rightarrow>
          bind_err (py_index hu cnt)
            (\<lambda>v. bind_err (dd_append name (VInt v) ud) (split_fields nf hu fs (cnt + 1))))"

text \<open>
  \<^verbatim>\<open>_split_header(raw, header_unpacked)\<close>: returns the boolean, the stream and the
  dataset. On a marker mismatch one more byte is read; \<^verbatim>\<open>return False\<close> is under
  \<^verbatim>\<open>if check_eof\<close>, so when that read is empty control falls through to the field loop.
\<close>

definition split_header_fields ::
  "parameters \<Rightarrow> stream \<Rightarrow> int list \<Rightarrow> unpacked \<Rightarrow> error + (bool \<times> stream \<times> unpacked)" where
  "split_header_fields P raw header_unpacked ud =
     bind_err (split_fields (num_freq P) header_unpacked HEADER_FIELDS 0 ud)
       (\<lambda>(header_byte_cnt, ud'). Inr (True, raw, ud'))"

definition split_header ::
  "parameters \<Rightarrow> stream \<Rightarrow> int list \<Rightarrow> unpacked \<Rightarrow> error + (bool \<times> stream \<times> unpacked)" where
  "split_header P raw header_unpacked ud =
     bind_err (py_index header_unpacked 0)
       (\<lambda>flag.
          if flag \<noteq> FILE_TYPE then
            (let (check_eof, raw1) = read_bytes raw 1
             in if check_eof \<noteq> [] then Inr (False, raw1, ud)
                else split_header_fields P raw1 header_unpacked ud)
          else split_header_fields P raw header_unpacked ud)"

section \<open>The sample block decoder \<^verbatim>\<open>_add_counts\<close>\<close>

text \<open>\<^verbatim>\<open>raw.read(n)\<close> for a Python integer: a negative size reads to the end.\<close>

definition read_int :: "stream \<Rightarrow> int \<Rightarrow> byte list \<times> stream" where
  "read_int raw n = (if n < 0 then (raw, []) else read_bytes raw (nat n))"

text \<open>\<^verbatim>\<open>">" + c * n\<close>.\<close>

definition fmt_repeat :: "char \<Rightarrow> int \<Rightarrow> string" where
  "fmt_repeat c n = CHR ''>'' # replicate (nat n) c"

text \<open>
  Line 401, the integer part: \<^verbatim>\<open>np.array(ls) + np.array(lso) * 4294967295\<close>
  (64-bit integers, which these values never overflow).
\<close>

definition linear_sum :: "int list \<Rightarrow> int list \<Rightarrow> int list" where
  "linear_sum ls lso = map2 (\<lambda>s ov. s + ov * 4294967295) ls lso"

text \<open>
  Lines 401 and 402 for one element of the array: divide the magnitude by the divisor,
  log-compress and scale by \<^verbatim>\<open>DS[freq_ch]\<close>.
\<close>

definition log_value :: "int \<Rightarrow> npfloat \<Rightarrow> int \<Rightarrow> npfloat" where
  "log_value divisor ds m =
     fl_mul
       (fl_mul (fl_sub (np_log10 (np_divide (fl_of_int m) (fl_of_int divisor))) (Fin 2.5))
          (fl_of_int (8 * 65535)))
       ds"

text \<open>Line 403 for one element: \<^verbatim>\<open>v[np.isinf(v)] = 0\<close>.\<close>

definition clamp_inf :: "npfloat \<Rightarrow> npfloat" where
  "clamp_inf v = (if np_isinf v then Fin 0 else v)"

definition log_compress :: "int \<Rightarrow> npfloat \<Rightarrow> int \<Rightarrow> npfloat" where
  "log_compress divisor ds m = clamp_inf (log_value divisor ds m)"

text \<open>Lines 388 to 394: the divisor of an averaged channel.\<close>

definition divisor_of :: "unpacked \<Rightarrow> int \<Rightarrow> int \<Rightarrow> error + int" where
  "divisor_of ud ping_num freq_ch =
     bind_err (get_int ud ''avg_pings'' ping_num) (\<lambda>avg_pings.
       if avg_pings \<noteq> 0 then
         bind_err (get_int ud ''ping_per_profile'' ping_num) (\<lambda>ping_per_profile.
         bind_err (get_sub ud ''range_samples_per_bin'' ping_num freq_ch) (\<lambda>range_samples.
           Inr (ping_per_profile * range_samples)))
       else get_sub ud ''range_samples_per_bin'' ping_num freq_ch)"

text \<open>The body of the loop \<^verbatim>\<open>for freq_ch in range(num_chan)\<close>.\<close>

definition add_counts_channel ::
  "parameters \<Rightarrow> unpacked \<Rightarrow> int \<Rightarrow> stream \<Rightarrow> int \<Rightarrow> error + (chanvec \<times> stream)" where
  "add_counts_channel P ud ping_num raw freq_ch =
     bind_err (get_sub ud ''num_bins'' ping_num freq_ch) (\<lambda>counts_byte_size.
     bind_err (get_sub ud ''data_type'' ping_num freq_ch) (\<lambda>data_type.
       if data_type \<noteq> 0 then
         bind_err (divisor_of ud ping_num freq_ch) (\<lambda>divisor.
         let (chunk4, raw1) = read_int raw (counts_byte_size * 4) in
         bind_err (unpack (fmt_repeat CHR ''I'' counts_byte_size) chunk4) (\<lambda>ls.
         let (chunk1, raw2) = read_int raw1 (counts_byte_size * 1) in
         bind_err (unpack (fmt_repeat CHR ''B'' counts_byte_size) chunk1) (\<lambda>lso.
         bind_err (py_index (DS P) freq_ch) (\<lambda>ds.
           Inr (AvgCounts (map (log_compress divisor ds) (linear_sum ls lso)), raw2)))))
       else
         (let (counts_chunk, raw1) = read_int raw (counts_byte_size * 2) in
          bind_err (unpack (fmt_repeat CHR ''H'' counts_byte_size) counts_chunk)
            (\<lambda>counts_unpacked. Inr (RawCounts counts_unpacked, raw1)))))"

fun add_counts_loop ::
  "parameters \<Rightarrow> unpacked \<Rightarrow> int \<Rightarrow> nat list \<Rightarrow> stream \<Rightarrow> chanvec list
     \<Rightarrow> error + (chanvec list \<times> stream)" where
  "add_counts_loop P ud ping_num [] raw vv_tmp = Inr (vv_tmp, raw)"
| "add_counts_loop P ud ping_num (freq_ch # chs) raw vv_tmp =
     bind_err (add_counts_channel P ud ping_num raw (int freq_ch))
       (\<lambda>(v, raw'). add_counts_loop P ud ping_num chs raw' (vv_tmp[freq_ch := v]))"

definition add_counts ::
  "parameters \<Rightarrow> stream \<Rightarrow> int \<Rightarrow> unpacked \<Rightarrow> error + (unpacked \<times> stream)" where
  "add_counts P raw ping_num ud =
     bind_err (get_int ud ''num_chan'' ping_num) (\<lambda>num_chan.
     bind_err (add_counts_loop P ud ping_num [0 ..< nat num_chan] raw
                 (replicate (nat num_chan) EmptyList)) (\<lambda>(vv_tmp, raw').
     bind_err (dd_append ''counts'' (VCounts vv_tmp) ud) (\<lambda>ud'. Inr (ud', raw'))))"

section \<open>Calibration of the ancillary channels\<close>

definition compute_temperature ::
  "parameters \<Rightarrow> unpacked \<Rightarrow> int \<Rightarrow> bool \<Rightarrow> error + npfloat" where
  "compute_temperature P ud ping_num is_valid =
     (if \<not> is_valid then Inr NaN
      else
        bind_err (get_sub ud ''ancillary'' ping_num 4) (\<lambda>counts.
        let v_in = fl_mul (Fin 2.5) (Fin (of_int counts / 65535)) in
        bind_err (py_truediv
                    (fl_add (float_params P ''ka'') (fl_mul (float_params P ''kb'') v_in))
                    (fl_sub (float_params P ''kc'') v_in)) (\<lambda>R.
        let lnR = np_log R;
            T = fl_sub
                  (np_divide (Fin 1)
                     (fl_add
                        (fl_add (float_params P ''A'') (fl_mul (float_params P ''B'') lnR))
                        (fl_mul (float_params P ''C'') (fl_mul (fl_mul lnR lnR) lnR))))
                  (Fin 273)
        in Inr T)))"

definition compute_tilt ::
  "parameters \<Rightarrow> unpacked \<Rightarrow> int \<Rightarrow> string \<Rightarrow> bool \<Rightarrow> error + npfloat" where
  "compute_tilt P ud ping_num xy is_valid =
     (if \<not> is_valid then Inr NaN
      else
        (let idx = (if xy = ''X'' then 0 else 1) in
         bind_err (get_sub ud ''ancillary'' ping_num idx) (\<lambda>N.
         let a = float_params P (xy @ ''_a'');
             b = float_params P (xy @ ''_b'');
             c = float_params P (xy @ ''_c'');
             d = float_params P (xy @ ''_d'')
         in Inr (fl_add
                   (fl_add (fl_add a (fl_mul b (fl_of_int N))) (fl_mul c (fl_of_int (N ^ 2))))
                   (fl_mul d (fl_of_int (N ^ 3)))))))"

definition USL5_BAT_CONSTANT :: real where
  "USL5_BAT_CONSTANT = (2.5 / 65536) * (86.6 + 475.0) / 86.6"

definition compute_battery :: "unpacked \<Rightarrow> int \<Rightarrow> string \<Rightarrow> error + npfloat" where
  "compute_battery ud ping_num battery_type =
     bind_err
       (if battery_type = ''main'' then get_sub ud ''ancillary'' ping_num 2
        else if battery_type = ''tx'' then get_sub ud ''ad'' ping_num 0
        else Inl UnboundLocalError)
       (\<lambda>N. Inr (Fin (of_int N * USL5_BAT_CONSTANT)))"

text \<open>\<^verbatim>\<open>_test_valid_params\<close>, the local function of \<^verbatim>\<open>parse_raw\<close>.\<close>

definition test_valid_params :: "parameters \<Rightarrow> string list \<Rightarrow> bool" where
  "test_valid_params P params =
     (if list_all (\<lambda>p. np_isclose0 (float_params P p)) params then False else True)"

section \<open>datetime and numpy.datetime64\<close>

text \<open>
  \<^verbatim>\<open>datetime.datetime(year, month, day, hour, minute, second)\<close> validates its fields
  in this order and raises \<^verbatim>\<open>ValueError\<close>; the microsecond is 0.
\<close>

record datetime =
  dt_year :: int
  dt_month :: int
  dt_day :: int
  dt_hour :: int
  dt_minute :: int
  dt_second :: int

definition is_leap :: "int \<Rightarrow> bool" where
  "is_leap y = (y mod 4 = 0 \<and> (y mod 100 \<noteq> 0 \<or> y mod 400 = 0))"

definition days_in_month :: "int \<Rightarrow> int \<Rightarrow> int" where
  "days_in_month y m =
     (if m = 2 then (if is_leap y then 29 else 28)
      else if m \<in> {4, 6, 9, 11} then 30 else 31)"

definition datetime_new ::
  "int \<Rightarrow> int \<Rightarrow> int \<Rightarrow> int \<Rightarrow> int \<Rightarrow> int \<Rightarrow> error + datetime" where
  "datetime_new y mo d h mi s =
     (if \<not> (1 \<le> y \<and> y \<le> 9999) then Inl (ValueError ''year is out of range'')
      else if \<not> (1 \<le> mo \<and> mo \<le> 12) then Inl (ValueError ''month must be in 1..12'')
      else if \<not> (1 \<le> d \<and> d \<le> days_in_month y mo)
        then Inl (ValueError ''day is out of range for month'')
      else if \<not> (0 \<le> h \<and> h \<le> 23) then Inl (ValueError ''hour must be in 0..23'')
      else if \<not> (0 \<le> mi \<and> mi \<le> 59) then Inl (ValueError ''minute must be in 0..59'')
      else if \<not> (0 \<le> s \<and> s \<le> 59) then Inl (ValueError ''second must be in 0..59'')
      else Inr \<lparr>dt_year = y, dt_month = mo, dt_day = d,
                dt_hour = h, dt_minute = mi, dt_second = s\<rparr>)"

text \<open>\<^verbatim>\<open>int(x)\<close> of a float truncates towards zero.\<close>

definition py_trunc :: "real \<Rightarrow> int" where
  "py_trunc r = (if 0 \<le> r then \<lfloor>r\<rfloor> else \<lceil>r\<rceil>)"

definition py_int :: "npfloat \<Rightarrow> error + int" where
  "py_int x =
     (case x of
        Fin r \<Rightarrow> Inr (py_trunc r)
      | NaN \<Rightarrow> Inl (ValueError ''cannot convert float NaN to integer'')
      | _ \<Rightarrow> Inl OverflowError)"

text \<open>
  The seconds argument of both \<^verbatim>\<open>dt(...)\<close> calls:
  \<^verbatim>\<open>int(second + hundredths / 100)\<close>, with \<^verbatim>\<open>/\<close> the true division of two integers.
\<close>

definition seconds_arg :: "int \<Rightarrow> int \<Rightarrow> error + int" where
  "seconds_arg second hundredths =
     py_int (fl_add (fl_of_int second) (Fin (of_int hundredths / 100)))"

text \<open>
  \<^verbatim>\<open>np.datetime64(d, "[ms]")\<close>: milliseconds since 1970-01-01T00:00, from the proleptic
  Gregorian ordinal of the date.
\<close>

definition days_before_year :: "int \<Rightarrow> int" where
  "days_before_year y = (y - 1) * 365 + (y - 1) div 4 - (y - 1) div 100 + (y - 1) div 400"

definition days_before_month :: "int \<Rightarrow> int \<Rightarrow> int" where
  "days_before_month y m = (\<Sum>k \<leftarrow> [1 ..< nat m]. days_in_month y (int k))"

definition toordinal :: "datetime \<Rightarrow> int" where
  "toordinal d = days_before_year (dt_year d) + days_before_month (dt_year d) (dt_month d)
                 + dt_day d"

definition datetime64_ms :: "datetime \<Rightarrow> int" where
  "datetime64_ms d =
     ((((toordinal d - 719163) * 24 + dt_hour d) * 60 + dt_minute d) * 60 + dt_second d) * 1000"

text \<open>The seconds component (0 to 59) of a millisecond timestamp.\<close>

definition ms_seconds :: "int \<Rightarrow> int" where
  "ms_seconds t = (t div 1000) mod 60"

section \<open>The status line \<^verbatim>\<open>_print_status\<close>\<close>

text \<open>
  Only the construction of the timestamp can raise; the log line itself has no effect on
  the data.
\<close>

definition print_status :: "unpacked \<Rightarrow> error + unit" where
  "print_status ud =
     bind_err (get_int ud ''year'' 0) (\<lambda>year.
     bind_err (get_int ud ''month'' 0) (\<lambda>month.
     bind_err (get_int ud ''day'' 0) (\<lambda>day.
     bind_err (get_int ud ''hour'' 0) (\<lambda>hour.
     bind_err (get_int ud ''minute'' 0) (\<lambda>minute.
     bind_err (get_int ud ''second'' 0) (\<lambda>second.
     bind_err (get_int ud ''hundredths'' 0) (\<lambda>hundredths.
     bind_err (seconds_arg second hundredths) (\<lambda>sec.
     bind_err (datetime_new year month day hour minute sec) (\<lambda>timestamp. Inr ())))))))))"

section \<open>One iteration of the read loop of \<^verbatim>\<open>parse_raw\<close>\<close>

record valid_flags =
  temperature_is_valid :: bool
  tilt_x_is_valid :: bool
  tilt_y_is_valid :: bool

definition valid_flags_of :: "parameters \<Rightarrow> valid_flags" where
  "valid_flags_of P =
     \<lparr>temperature_is_valid = test_valid_params P [''ka'', ''kb'', ''kc''],
      tilt_x_is_valid = test_valid_params P [''X_a'', ''X_b'', ''X_c''],
      tilt_y_is_valid = test_valid_params P [''Y_a'', ''Y_b'', ''Y_c'']\<rparr>"

text \<open>
  \<^verbatim>\<open>np.cos(np.sqrt(tilt_x ** 2 + tilt_y ** 2) * np.pi / 180)\<close> on the values just
  appended for this ping.
\<close>

definition cos_tilt_mag :: "npfloat \<Rightarrow> npfloat \<Rightarrow> npfloat" where
  "cos_tilt_mag tx ty =
     np_cos (np_divide (fl_mul (np_sqrt (fl_add (fl_mul tx tx) (fl_mul ty ty))) (Fin pi))
               (Fin 180))"

text \<open>Lines 251 to 288: what the loop does with a frame that \<^verbatim>\<open>_split_header\<close> accepted.\<close>

definition accumulate_ping ::
  "parameters \<Rightarrow> valid_flags \<Rightarrow> stream \<Rightarrow> int \<Rightarrow> unpacked \<Rightarrow> error + (unpacked \<times> stream)" where
  "accumulate_ping P flags raw ping_num ud =
     bind_err (add_counts P raw ping_num ud) (\<lambda>(ud, raw').
     bind_err (if ping_num = 0 then print_status ud else Inr ()) (\<lambda>_.
     bind_err (compute_temperature P ud ping_num (temperature_is_valid flags)) (\<lambda>t.
     bind_err (dd_append ''temperature'' (VFloat t) ud) (\<lambda>ud.
     bind_err (compute_tilt P ud ping_num ''X'' (tilt_x_is_valid flags)) (\<lambda>tx.
     bind_err (dd_append ''tilt_x'' (VFloat tx) ud) (\<lambda>ud.
     bind_err (compute_tilt P ud ping_num ''Y'' (tilt_y_is_valid flags)) (\<lambda>ty.
     bind_err (dd_append ''tilt_y'' (VFloat ty) ud) (\<lambda>ud.
     bind_err (get_float ud ''tilt_x'' ping_num) (\<lambda>x.
     bind_err (get_float ud ''tilt_y'' ping_num) (\<lambda>y.
     bind_err (dd_append ''cos_tilt_mag'' (VFloat (cos_tilt_mag x y)) ud) (\<lambda>ud.
     bind_err (compute_battery ud ping_num ''main'') (\<lambda>bm.
     bind_err (dd_append ''battery_main'' (VFloat bm) ud) (\<lambda>ud.
     bind_err (compute_battery ud ping_num ''tx'') (\<lambda>bt.
     bind_err (dd_append ''battery_tx'' (VFloat bt) ud) (\<lambda>ud.
       Inr (ud, raw'))))))))))))))))"

datatype stop_reason = EndOfStream | UnrecognizedFrame

datatype step = Stopped stop_reason unpacked | Reading unpacked stream

text \<open>
  One iteration of \<^verbatim>\<open>while not eof\<close>: an empty read ends the stream, a frame that
  \<^verbatim>\<open>_split_header\<close> rejects breaks out of the loop, an accepted frame is accumulated.
\<close>

definition parse_step ::
  "parameters \<Rightarrow> valid_flags \<Rightarrow> stream \<Rightarrow> int \<Rightarrow> unpacked \<Rightarrow> error + step" where
  "parse_step P flags file ping_num ud =
     (let (header_chunk, file1) = read_bytes file HEADER_SIZE in
      if header_chunk \<noteq> [] then
        bind_err (unpack HEADER_FORMAT header_chunk) (\<lambda>header_unpacked.
        bind_err (split_header P file1 header_unpacked ud) (\<lambda>(ok, file2, ud1).
          if ok then
            bind_err (accumulate_ping P flags file2 ping_num ud1)
              (\<lambda>(ud2, file3). Inr (Reading ud2 file3))
          else Inr (Stopped UnrecognizedFrame ud1)))
      else Inr (Stopped EndOfStream ud))"

section \<open>The reducer \<^verbatim>\<open>_check_uniqueness\<close>\<close>

text \<open>
  \<^verbatim>\<open>np.array(x).size\<close>, for the shapes the header fields take: a list of integers, a
  list of equal-length tuples, or an array already collapsed.
\<close>

fun val_size :: "pyval \<Rightarrow> nat" where
  "val_size (VTuple t) = length t"
| "val_size (VCounts c) = length c"
| "val_size _ = 1"

fun np_size :: "pyobj \<Rightarrow> nat" where
  "np_size (PList xs) = sum_list (map val_size xs)"
| "np_size (NDArray0 _) = 1"
| "np_size (NDArray1 vs) = length vs"

text \<open>
  The result of \<^verbatim>\<open>np.unique\<close>: a 1-d array of sorted distinct integers, or (with
  \<^verbatim>\<open>axis=0\<close> on a 2-d array) the sorted distinct rows.
\<close>

datatype uniq = U1 "int list" | U2 "int list list"

fun shape0 :: "uniq \<Rightarrow> nat" where
  "shape0 (U1 xs) = length xs"
| "shape0 (U2 rows) = length rows"

text \<open>\<^verbatim>\<open>uniq.squeeze()\<close> drops every axis of length 1.\<close>

fun squeeze :: "uniq \<Rightarrow> pyobj" where
  "squeeze (U1 xs) = (case xs of [x] \<Rightarrow> NDArray0 x | _ \<Rightarrow> NDArray1 xs)"
| "squeeze (U2 rows) =
     (case rows of
        [row] \<Rightarrow> (case row of [x] \<Rightarrow> NDArray0 x | _ \<Rightarrow> NDArray1 row)
      | _ \<Rightarrow> NDArray1 (concat rows))"

fun the_ints :: "pyval list \<Rightarrow> int list option" where
  "the_ints [] = Some []"
| "the_ints (VInt n # vs) = map_option ((#) n) (the_ints vs)"
| "the_ints (_ # vs) = None"

fun the_rows :: "pyval list \<Rightarrow> int list list option" where
  "the_rows [] = Some []"
| "the_rows (VTuple t # vs) = map_option ((#) t) (the_rows vs)"
| "the_rows (_ # vs) = None"

text \<open>
  \<^verbatim>\<open>np.unique(x)\<close>: the input is flattened. Only integer data is modelled, the only
  data \<^verbatim>\<open>_split_header\<close> stores under the fields reduced; anything else is reported
  as \<open>TypeError\<close>.
\<close>

definition np_unique :: "pyobj \<Rightarrow> error + uniq" where
  "np_unique x =
     (case x of
        NDArray0 v \<Rightarrow> Inr (U1 [v])
      | NDArray1 vs \<Rightarrow> Inr (U1 (sort (remdups vs)))
      | PList xs \<Rightarrow>
          (case the_ints xs of
             Some ns \<Rightarrow> Inr (U1 (sort (remdups ns)))
           | None \<Rightarrow>
               (case the_rows xs of
                  Some rows \<Rightarrow> Inr (U1 (sort (remdups (concat rows))))
                | None \<Rightarrow> Inl TypeError)))"

text \<open>
  \<^verbatim>\<open>np.unique(x, axis=0)\<close>: the distinct rows of a list of equal-length tuples; a 0-d
  array has no axis 0, and rows of different lengths do not form an array.
\<close>

definition np_unique_axis0 :: "pyobj \<Rightarrow> error + uniq" where
  "np_unique_axis0 x =
     (case x of
        NDArray0 v \<Rightarrow> Inl AxisError
      | NDArray1 vs \<Rightarrow> Inr (U1 (sort (remdups vs)))
      | PList xs \<Rightarrow>
          (case the_ints xs of
             Some ns \<Rightarrow> Inr (U1 (sort (remdups ns)))
           | None \<Rightarrow>
               (case the_rows xs of
                  Some rows \<Rightarrow>
                    (if list_all (\<lambda>r. length r = length (hd rows)) rows
                     then Inr (U2 (sort (remdups rows)))
                     else Inl (ValueError ''inhomogeneous shape''))
                | None \<Rightarrow> Inl TypeError)))"

definition field_include :: "string list" where
  "field_include =
     [''profile_flag'', ''serial_number'', ''burst_int'', ''ping_per_profile'',
      ''avg_pings'', ''ping_period'', ''phase'', ''num_chan'', ''spare_chan'']"

definition not_constant :: "string \<Rightarrow> error" where
  "not_constant field =
     ValueError (''Header value '' @ field @ '' is not constant for each ping'')"

text \<open>
  The two loops \<^verbatim>\<open>for field in ...\<close> of the reducer; \<open>unique\<close> is \<open>np_unique_axis0\<close>
  in the first and \<open>np_unique\<close> in the second.
\<close>

fun reduce_fields ::
  "(pyobj \<Rightarrow> error + uniq) \<Rightarrow> string list \<Rightarrow> unpacked \<Rightarrow> error + unpacked" where
  "reduce_fields unique [] ud = Inr ud"
| "reduce_fields unique (field # fs) ud =
     bind_err (unique (dd_get ud field)) (\<lambda>uniq.
       if shape0 uniq = 1 then reduce_fields unique fs (dd_set field (squeeze uniq) ud)
       else Inl (not_constant field))"

text \<open>
  The body of \<^verbatim>\<open>_check_uniqueness\<close> after its guard
  \<^verbatim>\<open>if not self.unpacked_data: self.parse_raw()\<close>.
\<close>

definition check_uniqueness_body :: "unpacked \<Rightarrow> error + unpacked" where
  "check_uniqueness_body ud =
     (if np_size (dd_get ud ''profile_flag'') \<noteq> 1 then
        bind_err (reduce_fields np_unique_axis0 field_w_freq ud)
          (reduce_fields np_unique field_include)
      else Inr ud)"

text \<open>
  \<^verbatim>\<open>_check_uniqueness\<close>. With an empty dataset the source calls \<^verbatim>\<open>self.parse_raw()\<close>
  first; \<open>reparse\<close> is the outcome of that call (the dataset it leaves, or its error).
\<close>

definition check_uniqueness :: "error + unpacked \<Rightarrow> unpacked \<Rightarrow> error + unpacked" where
  "check_uniqueness reparse ud =
     (if ud = [] then bind_err reparse check_uniqueness_body
      else check_uniqueness_body ud)"

section \<open>The timestamp assembler \<^verbatim>\<open>_get_ping_time\<close>\<close>

text \<open>The body of \<^verbatim>\<open>for ping_num, year in enumerate(self.unpacked_data["year"])\<close>.\<close>

definition ping_time_of :: "unpacked \<Rightarrow> int \<Rightarrow> pyval \<Rightarrow> error + int" where
  "ping_time_of ud ping_num year =
     bind_err (case year of VInt y \<Rightarrow> Inr y | _ \<Rightarrow> Inl TypeError) (\<lambda>y.
     bind_err (get_int ud ''month'' ping_num) (\<lambda>month.
     bind_err (get_int ud ''day'' ping_num) (\<lambda>day.
     bind_err (get_int ud ''hour'' ping_num) (\<lambda>hour.
     bind_err (get_int ud ''minute'' ping_num) (\<lambda>minute.
     bind_err (get_int ud ''second'' ping_num) (\<lambda>second.
     bind_err (get_int ud ''hundredths'' ping_num) (\<lambda>hundredths.
     bind_err (seconds_arg second hundredths) (\<lambda>sec.
     bind_err (datetime_new y month day hour minute sec) (\<lambda>d.
       Inr (datetime64_ms d))))))))))"

fun ping_time_loop :: "unpacked \<Rightarrow> int \<Rightarrow> pyval list \<Rightarrow> int list \<Rightarrow> error + int list" where
  "ping_time_loop ud ping_num [] ping_time = Inr ping_time"
| "ping_time_loop ud ping_num (year # years) ping_time =
     bind_err (ping_time_of ud ping_num year)
       (\<lambda>t. ping_time_loop ud (ping_num + 1) years (ping_time @ [t]))"

definition get_ping_time_body :: "unpacked \<Rightarrow> error + int list" where
  "get_ping_time_body ud =
     (case dd_get ud ''year'' of
        PList years \<Rightarrow> ping_time_loop ud 0 years []
      | NDArray1 vs \<Rightarrow> ping_time_loop ud 0 (map VInt vs) []
      | NDArray0 _ \<Rightarrow> Inl TypeError)"

definition get_ping_time :: "error + unpacked \<Rightarrow> unpacked \<Rightarrow> error + int list" where
  "get_ping_time reparse ud =
     (if ud = [] then bind_err reparse get_ping_time_body
      else get_ping_time_body ud)"

section \<open>After the loop: lines 295 to 299 of \<^verbatim>\<open>parse_raw\<close>\<close>

text \<open>
  \<^verbatim>\<open>self.unpacked_data["frequency"].astype(np.float64)\<close>: a Python list has no
  \<^verbatim>\<open>astype\<close>; on an array the values stay what they are (the integers convert
  exactly). \<open>parse_raw_finish\<close> is the reducer, the timestamp assembler and this cast, in
  the order of the source; the casts of the remaining lists to arrays (lines 301 to 310)
  are not modelled.
\<close>

definition astype_float64 :: "pyobj \<Rightarrow> error + pyobj" where
  "astype_float64 x = (case x of PList _ \<Rightarrow> Inl AttributeError | _ \<Rightarrow> Inr x)"

definition parse_raw_finish ::
  "error + unpacked \<Rightarrow> unpacked \<Rightarrow> error + (unpacked \<times> int list)" where
  "parse_raw_finish reparse ud =
     bind_err (check_uniqueness reparse ud) (\<lambda>ud.
     bind_err (get_ping_time reparse ud) (\<lambda>ping_time.
     bind_err (astype_float64 (dd_get ud ''frequency'')) (\<lambda>frequency.
       Inr (dd_set ''frequency'' frequency ud, ping_time))))"

section \<open>The loop \<^verbatim>\<open>while not eof\<close>\<close>

function parse_loop ::
  "parameters \<Rightarrow> valid_flags \<Rightarrow> stream \<Rightarrow> int \<Rightarrow> unpacked
     \<Rightarrow> error + (unpacked \<times> stop_reason)" where
  "parse_loop P flags file ping_num ud =
     (case parse_step P flags file ping_num ud of
        Inl e \<Rightarrow> Inl e
      | Inr (Stopped reason ud') \<Rightarrow> Inr (ud', reason)
      | Inr (Reading ud' file') \<Rightarrow> parse_loop P flags file' (ping_num + 1) ud')"
  by pat_completeness auto

section \<open>Notions of the statements and example inputs\<close>

text \<open>
  Parameters of a one-channel instrument whose calibration coefficients are all 0 and
  whose \<^verbatim>\<open>DS\<close> is 1; the time fields of one ping at 2020-01-02 03:04:05.60.
\<close>

definition zero_params :: parameters where
  "zero_params = \<lparr>num_freq = 1, float_params = (\<lambda>_. Fin 0), DS = [Fin 1]\<rparr>"

definition ud5 :: unpacked where
  "ud5 = [(''year'', PList [VInt 2020]), (''month'', PList [VInt 1]), (''day'', PList [VInt 2]),
          (''hour'', PList [VInt 3]), (''minute'', PList [VInt 4]), (''second'', PList [VInt 5]),
          (''hundredths'', PList [VInt 60])]"

text \<open>The list accumulated under a key, and the datasets no entry of which has been collapsed.\<close>

definition pings :: "unpacked \<Rightarrow> string \<Rightarrow> pyval list" where
  "pings ud k = (case dd_get ud k of PList xs \<Rightarrow> xs | _ \<Rightarrow> [])"

definition is_list :: "pyobj \<Rightarrow> bool" where
  "is_list v = (case v of PList _ \<Rightarrow> True | _ \<Rightarrow> False)"

definition unreduced :: "unpacked \<Rightarrow> bool" where
  "unreduced ud = list_all (\<lambda>kv. is_list (snd kv)) ud"

text \<open>A header that starts with the marker 64770 (bytes 253, 2), all other bytes 0.\<close>

definition magic_frame :: "byte list" where
  "magic_frame = [253, 2] @ replicate 122 0"

text \<open>
  A header whose marker is 0 instead of 64770, what \<^verbatim>\<open>struct.unpack\<close> makes of it, the
  record \<^verbatim>\<open>_split_header\<close> stores for it, and the dataset after the loop accumulated it
  (parameters \<open>zero_params\<close>: one channel, all calibration coefficients 0).
\<close>

definition bad_magic_frame :: "byte list" where
  "bad_magic_frame =
     [0, 0, 0, 0, 0, 0, 0, 0, 0, 0, 0, 0, 7, 228, 0, 1, 0, 2, 0, 3, 0, 4, 0, 5, 0,
      60, 0, 0, 0, 0, 0, 0, 0, 0, 0, 0, 0, 0, 0, 0, 0, 0, 0, 0, 0, 0, 0, 0, 0, 0, 0,
      0, 0, 0, 0, 0, 0, 0, 0, 0, 0, 0, 0, 0, 0, 0, 0, 0, 0, 0, 0, 0, 0, 0, 0, 0, 0,
      0, 0, 0, 0, 0, 0, 0, 0, 0, 0, 0, 0, 0, 0, 0, 0, 0, 0, 0, 0, 0, 0, 0, 0, 0, 0,
      0, 0, 0, 0, 0, 0, 0, 0, 0, 0, 0, 0, 0, 0, 0, 0, 0, 0, 0, 0, 0]"

definition bad_magic_header :: "int list" where
  "bad_magic_header =
     [0, 0, 0, 0, 0, 2020, 1, 2, 3, 4, 5, 60, 0, 0, 0, 0, 0, 0, 0, 0, 0, 0, 0, 0, 0,
      0, 0, 0, 0, 0, 0, 0, 0, 0, 0, 0, 0, 0, 0, 0, 0, 0, 0, 0, 0, 0, 0, 0, 0, 0, 0,
      0, 0, 0, 0, 0, 0, 0, 0, 0, 0, 0, 0, 0, 0, 0, 0]"

definition bad_magic_record :: unpacked where
  "bad_magic_record =
     [(''profile_flag'', PList [VInt 0]), (''profile_number'', PList [VInt 0]),
      (''serial_number'', PList [VInt 0]), (''ping_status'', PList [VInt 0]),
      (''burst_int'', PList [VInt 0]), (''year'', PList [VInt 2020]),
      (''month'', PList [VInt 1]), (''day'', PList [VInt 2]), (''hour'', PList [VInt 3]),
      (''minute'', PList [VInt 4]), (''second'', PList [VInt 5]),
      (''hundredths'', PList [VInt 60]), (''dig_rate'', PList [VTuple [0]]),
      (''lockout_index'', PList [VTuple [0]]), (''num_bins'', PList [VTuple [0]]),
      (''range_samples_per_bin'', PList [VTuple [0]]),
      (''ping_per_profile'', PList [VInt 0]), (''avg_pings'', PList [VInt 0]),
      (''num_acq_pings'', PList [VInt 0]), (''ping_period'', PList [VInt 0]),
      (''first_ping'', PList [VInt 0]), (''last_ping'', PList [VInt 0]),
      (''data_type'', PList [VTuple [0]]), (''data_error'', PList [VInt 0]),
      (''phase'', PList [VInt 0]), (''overrun'', PList [VInt 0]),
      (''num_chan'', PList [VInt 0]), (''gain'', PList [VTuple [0]]),
      (''spare_chan'', PList [VInt 0]), (''pulse_length'', PList [VTuple [0]]),
      (''board_num'', PList [VTuple [0]]), (''frequency'', PList [VTuple [0]]),
      (''sensor_flag'', PList [VInt 0]), (''ancillary'', PList [VTuple [0, 0, 0, 0, 0]]),
      (''ad'', PList [VTuple [0, 0]])]"

definition bad_magic_ping :: unpacked where
  "bad_magic_ping =
     bad_magic_record @
     [(''counts'', PList [VCounts []]), (''temperature'', PList [VFloat NaN]),
      (''tilt_x'', PList [VFloat NaN]), (''tilt_y'', PList [VFloat NaN]),
      (''cos_tilt_mag'', PList [VFloat NaN]), (''battery_main'', PList [VFloat (Fin 0)]),
      (''battery_tx'', PList [VFloat (Fin 0)])]"

text \<open>
  A file of one ping: a header with the marker 64770, serial number 55017, the same time of
  day and one raw channel of three bins, followed by its payload 1, 2, 3; the values
  \<^verbatim>\<open>struct.unpack\<close> gives, the record stored for them, and the dataset after the loop
  accumulated the ping. Then the dataset after the header \<open>bad_magic_header\<close> was stored
  as a second record, and after that record was accumulated as ping 1.
\<close>

definition first_frame :: "byte list" where
  "first_frame =
     [253, 2, 0, 1, 214, 233, 0, 0, 0, 0, 0, 10, 7, 228, 0, 1, 0, 2, 0, 3, 0, 4, 0, 5,
      0, 60, 250, 0, 0, 0, 0, 0, 0, 0, 0, 0, 0, 0, 0, 0, 0, 0, 0, 3, 0, 0, 0, 0, 0, 0,
      0, 1, 0, 0, 0, 0, 0, 0, 0, 1, 0, 0, 0, 1, 0, 1, 0, 1, 0, 1, 0, 0, 0, 0, 0, 0, 1,
      0, 1, 1, 0, 0, 0, 0, 1, 44, 0, 0, 0, 0, 0, 0, 0, 0, 0, 0, 0, 0, 0, 0, 0, 38, 0,
      0, 0, 0, 0, 0, 0, 0, 0, 0, 0, 0, 0, 0, 0, 0, 0, 0, 0, 0, 0, 0]"

definition first_payload :: "byte list" where
  "first_payload = [0, 1, 0, 2, 0, 3]"

definition first_header :: "int list" where
  "first_header =
     [64770, 1, 55017, 0, 10, 2020, 1, 2, 3, 4, 5, 60, 64000, 0, 0, 0, 0, 0, 0, 0, 3,
      0, 0, 0, 1, 0, 0, 0, 1, 0, 1, 1, 1, 1, 0, 0, 0, 0, 0, 1, 0, 1, 1, 0, 0, 0, 0,
      300, 0, 0, 0, 0, 0, 0, 0, 38, 0, 0, 0, 0, 0, 0, 0, 0, 0, 0, 0]"

definition first_record :: unpacked where
  "first_record =
     [(''profile_flag'', PList [VInt 64770]), (''profile_number'', PList [VInt 1]),
      (''serial_number'', PList [VInt 55017]), (''ping_status'', PList [VInt 0]),
      (''burst_int'', PList [VInt 10]), (''year'', PList [VInt 2020]),
      (''month'', PList [VInt 1]), (''day'', PList [VInt 2]),
      (''hour'', PList [VInt 3]), (''minute'', PList [VInt 4]),
      (''second'', PList [VInt 5]), (''hundredths'', PList [VInt 60]),
      (''dig_rate'', PList [VTuple [64000]]), (''lockout_index'', PList [VTuple [0]]),
      (''num_bins'', PList [VTuple [3]]),
      (''range_samples_per_bin'', PList [VTuple [1]]),
      (''ping_per_profile'', PList [VInt 1]), (''avg_pings'', PList [VInt 0]),
      (''num_acq_pings'', PList [VInt 1]), (''ping_period'', PList [VInt 1]),
      (''first_ping'', PList [VInt 1]), (''last_ping'', PList [VInt 1]),
      (''data_type'', PList [VTuple [0]]), (''data_error'', PList [VInt 0]),
      (''phase'', PList [VInt 1]), (''overrun'', PList [VInt 0]),
      (''num_chan'', PList [VInt 1]), (''gain'', PList [VTuple [1]]),
      (''spare_chan'', PList [VInt 0]), (''pulse_length'', PList [VTuple [300]]),
      (''board_num'', PList [VTuple [0]]), (''frequency'', PList [VTuple [38]]),
      (''sensor_flag'', PList [VInt 0]),
      (''ancillary'', PList [VTuple [0, 0, 0, 0, 0]]), (''ad'', PList [VTuple [0, 0]])]"

definition first_ping :: unpacked where
  "first_ping =
     first_record @
     [(''counts'', PList [VCounts [RawCounts [1, 2, 3]]]),
      (''temperature'', PList [VFloat NaN]), (''tilt_x'', PList [VFloat NaN]),
      (''tilt_y'', PList [VFloat NaN]), (''cos_tilt_mag'', PList [VFloat NaN]),
      (''battery_main'', PList [VFloat (Fin 0)]), (''battery_tx'', PList [VFloat (Fin 0)])]"

definition second_record :: unpacked where
  "second_record =
     [(''profile_flag'', PList [VInt 64770, VInt 0]),
      (''profile_number'', PList [VInt 1, VInt 0]),
      (''serial_number'', PList [VInt 55017, VInt 0]),
      (''ping_status'', PList [VInt 0, VInt 0]),
      (''burst_int'', PList [VInt 10, VInt 0]),
      (''year'', PList [VInt 2020, VInt 2020]), (''month'', PList [VInt 1, VInt 1]),
      (''day'', PList [VInt 2, VInt 2]), (''hour'', PList [VInt 3, VInt 3]),
      (''minute'', PList [VInt 4, VInt 4]), (''second'', PList [VInt 5, VInt 5]),
      (''hundredths'', PList [VInt 60, VInt 60]),
      (''dig_rate'', PList [VTuple [64000], VTuple [0]]),
      (''lockout_index'', PList [VTuple [0], VTuple [0]]),
      (''num_bins'', PList [VTuple [3], VTuple [0]]),
      (''range_samples_per_bin'', PList [VTuple [1], VTuple [0]]),
      (''ping_per_profile'', PList [VInt 1, VInt 0]),
      (''avg_pings'', PList [VInt 0, VInt 0]),
      (''num_acq_pings'', PList [VInt 1, VInt 0]),
      (''ping_period'', PList [VInt 1, VInt 0]),
      (''first_ping'', PList [VInt 1, VInt 0]), (''last_ping'', PList [VInt 1, VInt 0]),
      (''data_type'', PList [VTuple [0], VTuple [0]]),
      (''data_error'', PList [VInt 0, VInt 0]), (''phase'', PList [VInt 1, VInt 0]),
      (''overrun'', PList [VInt 0, VInt 0]), (''num_chan'', PList [VInt 1, VInt 0]),
      (''gain'', PList [VTuple [1], VTuple [0]]),
      (''spare_chan'', PList [VInt 0, VInt 0]),
      (''pulse_length'', PList [VTuple [300], VTuple [0]]),
      (''board_num'', PList [VTuple [0], VTuple [0]]),
      (''frequency'', PList [VTuple [38], VTuple [0]]),
      (''sensor_flag'', PList [VInt 0, VInt 0]),
      (''ancillary'', PList [VTuple [0, 0, 0, 0, 0], VTuple [0, 0, 0, 0, 0]]),
      (''ad'', PList [VTuple [0, 0], VTuple [0, 0]]),
      (''counts'', PList [VCounts [RawCounts [1, 2, 3]]]),
      (''temperature'', PList [VFloat NaN]), (''tilt_x'', PList [VFloat NaN]),
      (''tilt_y'', PList [VFloat NaN]), (''cos_tilt_mag'', PList [VFloat NaN]),
      (''battery_main'', PList [VFloat (Fin 0)]),
      (''battery_tx'', PList [VFloat (Fin 0)])]"

definition both_pings :: unpacked where
  "both_pings =
     [(''profile_flag'', PList [VInt 64770, VInt 0]),
      (''profile_number'', PList [VInt 1, VInt 0]),
      (''serial_number'', PList [VInt 55017, VInt 0]),
      (''ping_status'', PList [VInt 0, VInt 0]),
      (''burst_int'', PList [VInt 10, VInt 0]),
      (''year'', PList [VInt 2020, VInt 2020]), (''month'', PList [VInt 1, VInt 1]),
      (''day'', PList [VInt 2, VInt 2]), (''hour'', PList [VInt 3, VInt 3]),
      (''minute'', PList [VInt 4, VInt 4]), (''second'', PList [VInt 5, VInt 5]),
      (''hundredths'', PList [VInt 60, VInt 60]),
      (''dig_rate'', PList [VTuple [64000], VTuple [0]]),
      (''lockout_index'', PList [VTuple [0], VTuple [0]]),
      (''num_bins'', PList [VTuple [3], VTuple [0]]),
      (''range_samples_per_bin'', PList [VTuple [1], VTuple [0]]),
      (''ping_per_profile'', PList [VInt 1, VInt 0]),
      (''avg_pings'', PList [VInt 0, VInt 0]),
      (''num_acq_pings'', PList [VInt 1, VInt 0]),
      (''ping_period'', PList [VInt 1, VInt 0]),
      (''first_ping'', PList [VInt 1, VInt 0]), (''last_ping'', PList [VInt 1, VInt 0]),
      (''data_type'', PList [VTuple [0], VTuple [0]]),
      (''data_error'', PList [VInt 0, VInt 0]), (''phase'', PList [VInt 1, VInt 0]),
      (''overrun'', PList [VInt 0, VInt 0]), (''num_chan'', PList [VInt 1, VInt 0]),
      (''gain'', PList [VTuple [1], VTuple [0]]),
      (''spare_chan'', PList [VInt 0, VInt 0]),
      (''pulse_length'', PList [VTuple [300], VTuple [0]]),
      (''board_num'', PList [VTuple [0], VTuple [0]]),
      (''frequency'', PList [VTuple [38], VTuple [0]]),
      (''sensor_flag'', PList [VInt 0, VInt 0]),
      (''ancillary'', PList [VTuple [0, 0, 0, 0, 0], VTuple [0, 0, 0, 0, 0]]),
      (''ad'', PList [VTuple [0, 0], VTuple [0, 0]]),
      (''counts'', PList [VCounts [RawCounts [1, 2, 3]], VCounts []]),
      (''temperature'', PList [VFloat NaN, VFloat NaN]),
      (''tilt_x'', PList [VFloat NaN, VFloat NaN]),
      (''tilt_y'', PList [VFloat NaN, VFloat NaN]),
      (''cos_tilt_mag'', PList [VFloat NaN, VFloat NaN]),
      (''battery_main'', PList [VFloat (Fin 0), VFloat (Fin 0)]),
      (''battery_tx'', PList [VFloat (Fin 0), VFloat (Fin 0)])]"

text \<open>One ping with one raw channel of three bins, as \<^verbatim>\<open>_split_header\<close> leaves it.\<close>

definition raw_ping :: unpacked where
  "raw_ping =
     [(''num_bins'', PList [VTuple [3]]), (''data_type'', PList [VTuple [0]]),
      (''num_chan'', PList [VInt 1])]"

text \<open>
  One ping with one averaged channel of one bin, not averaged over pings, with the given
  \<^verbatim>\<open>range_samples_per_bin\<close>.
\<close>

definition avg_ping :: "int \<Rightarrow> unpacked" where
  "avg_ping range_samples =
     [(''num_bins'', PList [VTuple [1]]),
      (''range_samples_per_bin'', PList [VTuple [range_samples]]),
      (''ping_per_profile'', PList [VInt 1]), (''avg_pings'', PList [VInt 0]),
      (''data_type'', PList [VTuple [1]]), (''num_chan'', PList [VInt 1])]"

text \<open>
  The words of the specification: a field is constant when exactly one distinct value was
  observed across the pings, and it is then collapsed to that value, a scalar for an
  integer and a vector for a tuple (a scalar again for a tuple of one slot, which
  \<^verbatim>\<open>squeeze\<close> flattens). \<open>accumulated n ud\<close> is a dataset as the read loop leaves it
  after \<open>n\<close> pings: \<open>n\<close> integers under each scalar field and \<open>n\<close> tuples of one
  length under each frequency-dependent field.
\<close>

definition constant_field :: "unpacked \<Rightarrow> string \<Rightarrow> bool" where
  "constant_field ud f = (length (remdups (pings ud f)) = 1)"

fun collapse :: "pyval \<Rightarrow> pyobj" where
  "collapse (VInt v) = NDArray0 v"
| "collapse (VTuple r) = (case r of [x] \<Rightarrow> NDArray0 x | _ \<Rightarrow> NDArray1 r)"
| "collapse _ = NDArray1 []"

definition accumulated :: "nat \<Rightarrow> unpacked \<Rightarrow> bool" where
  "accumulated n ud =
     (unreduced ud
      \<and> list_all (\<lambda>f. length (pings ud f) = n \<and> the_ints (pings ud f) \<noteq> None) field_include
      \<and> list_all (\<lambda>f. length (pings ud f) = n
            \<and> (case the_rows (pings ud f) of
                  Some rows \<Rightarrow> list_all (\<lambda>r. length r = length (hd rows)) rows
                | None \<Rightarrow> False)) field_w_freq)"

definition reduced_fields :: "string list" where
  "reduced_fields = field_w_freq @ field_include"

text \<open>
  The expected-constant fields of one header of a two-channel instrument, \<open>n\<close> identical
  pings of it, and two pings that differ in \<^verbatim>\<open>serial_number\<close>.
\<close>

definition one_record :: "(string \<times> pyval) list" where
  "one_record =
     [(''profile_flag'', VInt 64770), (''serial_number'', VInt 55017),
      (''burst_int'', VInt 10), (''dig_rate'', VTuple [64000, 64000]),
      (''lockout_index'', VTuple [0, 0]), (''num_bins'', VTuple [3, 3]),
      (''range_samples_per_bin'', VTuple [1, 1]), (''ping_per_profile'', VInt 1),
      (''avg_pings'', VInt 0), (''ping_period'', VInt 1), (''data_type'', VTuple [0, 0]),
      (''phase'', VInt 1), (''num_chan'', VInt 2), (''gain'', VTuple [1, 1]),
      (''spare_chan'', VInt 0), (''pulse_length'', VTuple [300, 300]),
      (''board_num'', VTuple [0, 1]), (''frequency'', VTuple [38, 125])]"

definition n_pings :: "nat \<Rightarrow> unpacked" where
  "n_pings n = map (\<lambda>(f, v). (f, PList (replicate n v))) one_record"

definition two_pings :: unpacked where
  "two_pings = n_pings 2"

definition serial_differs :: unpacked where
  "serial_differs = dd_set ''serial_number'' (PList [VInt 55017, VInt 55018]) (n_pings 2)"

text \<open>
  The payload of one ping, channel by channel: the number of bins of a channel, whether it
  is averaged, the bytes it occupies (5 per bin when averaged, 2 when raw) and the offset
  of its first byte, the sum of the widths of the channels before it. A channel is
  well-formed when the header entries \<^verbatim>\<open>_add_counts\<close> reads for it are there;
  \<open>bin_sum\<close> and \<open>bin_overflow\<close> are the 32-bit sum and the overflow count of bin \<open>i\<close>
  of an averaged channel of \<open>n\<close> bins whose payload starts at \<open>off\<close>.
\<close>

definition chan_bins :: "unpacked \<Rightarrow> int \<Rightarrow> nat \<Rightarrow> nat" where
  "chan_bins ud ping_num ch =
     (case get_sub ud ''num_bins'' ping_num (int ch) of Inr n \<Rightarrow> nat n | Inl _ \<Rightarrow> 0)"

definition chan_averaged :: "unpacked \<Rightarrow> int \<Rightarrow> nat \<Rightarrow> bool" where
  "chan_averaged ud ping_num ch =
     (case get_sub ud ''data_type'' ping_num (int ch) of Inr d \<Rightarrow> d \<noteq> 0 | Inl _ \<Rightarrow> False)"

definition chan_width :: "unpacked \<Rightarrow> int \<Rightarrow> nat \<Rightarrow> nat" where
  "chan_width ud ping_num ch =
     (if chan_averaged ud ping_num ch then 5 else 2) * chan_bins ud ping_num ch"

definition chan_offset :: "unpacked \<Rightarrow> int \<Rightarrow> nat \<Rightarrow> nat" where
  "chan_offset ud ping_num ch = sum_list (map (chan_width ud ping_num) [0 ..< ch])"

definition readable :: "error + 'a \<Rightarrow> bool" where
  "readable r = (case r of Inr _ \<Rightarrow> True | Inl _ \<Rightarrow> False)"

definition wf_channel :: "parameters \<Rightarrow> unpacked \<Rightarrow> int \<Rightarrow> nat \<Rightarrow> bool" where
  "wf_channel P ud ping_num ch =
     (case get_sub ud ''num_bins'' ping_num (int ch) of
        Inl _ \<Rightarrow> False
      | Inr n \<Rightarrow>
          0 \<le> n \<and> readable (get_sub ud ''data_type'' ping_num (int ch))
          \<and> (if chan_averaged ud ping_num ch
              then readable (divisor_of ud ping_num (int ch))
                   \<and> readable (py_index (DS P) (int ch))
              else True))"

definition wf_ping :: "parameters \<Rightarrow> unpacked \<Rightarrow> int \<Rightarrow> nat \<Rightarrow> bool" where
  "wf_ping P ud ping_num num_chan = list_all (wf_channel P ud ping_num) [0 ..< num_chan]"


definition bin_sum :: "stream \<Rightarrow> nat \<Rightarrow> nat \<Rightarrow> int" where
  "bin_sum raw off i = be_uint (take 4 (drop (off + 4 * i) raw))"

definition bin_overflow :: "stream \<Rightarrow> nat \<Rightarrow> nat \<Rightarrow> nat \<Rightarrow> int" where
  "bin_overflow raw off n i = uint (raw ! (off + 4 * n + i))"

text \<open>
  A ping of two channels, the first averaged with one bin, the second raw with three bins,
  and its payload: a zero sum and overflow count, then the values 1, 2, 3.
\<close>

definition two_chan_params :: parameters where
  "two_chan_params = \<lparr>num_freq = 2, float_params = (\<lambda>_. Fin 0), DS = [Fin 1, Fin 1]\<rparr>"

definition mixed_ping :: unpacked where
  "mixed_ping =
     [(''num_bins'', PList [VTuple [1, 3]]),
      (''range_samples_per_bin'', PList [VTuple [1, 1]]),
      (''ping_per_profile'', PList [VInt 1]), (''avg_pings'', PList [VInt 0]),
      (''data_type'', PList [VTuple [1, 0]]), (''num_chan'', PList [VInt 2])]"

definition mixed_payload :: stream where
  "mixed_payload = [0, 0, 0, 0, 0, 0, 1, 0, 2, 0, 3]"

section \<open>The stream only shrinks: termination of the read loop\<close>

lemma bind_err_Inr:
  "bind_err m f = Inr y \<longleftrightarrow> (\<exists>x. m = Inr x \<and> f x = Inr y)"
  by (cases m) (simp_all add: bind_err_def)

lemma bind_err_simps:
  "bind_err (Inr x) f = f x"
  "bind_err (Inl e) f = Inl e"
  by (simp_all add: bind_err_def)

lemma split_header_fields_stream:
  "split_header_fields P raw hu ud = Inr (ok, raw', ud') \<Longrightarrow> raw' = raw \<and> ok"
  by (auto simp: split_header_fields_def bind_err_Inr)

lemma split_header_length:
  "split_header P raw hu ud = Inr (ok, raw', ud') \<Longrightarrow> length raw' \<le> length raw"
  by (auto simp: split_header_def bind_err_Inr read_bytes_def Let_def
      dest!: split_header_fields_stream split: if_splits prod.splits)

lemma add_counts_channel_length:
  "add_counts_channel P ud ping_num raw ch = Inr (v, raw') \<Longrightarrow> length raw' \<le> length raw"
  unfolding add_counts_channel_def
  by (auto simp: bind_err_Inr Let_def read_int_def read_bytes_def split: if_splits)

lemma add_counts_loop_length:
  "add_counts_loop P ud ping_num chs raw vv = Inr (vv', raw') \<Longrightarrow> length raw' \<le> length raw"
proof (induction chs arbitrary: raw vv)
  case Nil
  then show ?case by simp
next
  case (Cons ch chs)
  then obtain v raw1 where a: "add_counts_channel P ud ping_num raw (int ch) = Inr (v, raw1)"
    and b: "add_counts_loop P ud ping_num chs raw1 (vv[ch := v]) = Inr (vv', raw')"
    by (auto simp: bind_err_Inr)
  from Cons.IH [OF b] add_counts_channel_length [OF a] show ?case by simp
qed

lemma add_counts_length:
  "add_counts P raw ping_num ud = Inr (ud', raw') \<Longrightarrow> length raw' \<le> length raw"
  by (auto simp: add_counts_def bind_err_Inr dest: add_counts_loop_length)

lemma accumulate_ping_length:
  "accumulate_ping P flags raw ping_num ud = Inr (ud', raw') \<Longrightarrow> length raw' \<le> length raw"
  unfolding accumulate_ping_def
  by (auto simp: bind_err_Inr dest: add_counts_length)

lemma parse_step_Reading_length:
  assumes "parse_step P flags file ping_num ud = Inr (Reading ud' file')"
  shows "length file' < length file"
proof -
  from assms have ne: "file \<noteq> []"
    by (auto simp: parse_step_def read_bytes_def HEADER_SIZE_def)
  from assms obtain hu ok file2 ud1 where
    sh: "split_header P (drop HEADER_SIZE file) hu ud = Inr (ok, file2, ud1)"
    and acc: "accumulate_ping P flags file2 ping_num ud1 = Inr (ud', file')"
    by (auto simp: parse_step_def read_bytes_def bind_err_Inr split: if_splits)
  from split_header_length [OF sh] accumulate_ping_length [OF acc]
  have "length file' \<le> length (drop HEADER_SIZE file)" by simp
  with ne show ?thesis by (cases "file") (auto simp: HEADER_SIZE_def)
qed

termination parse_loop
  by (relation "measure (\<lambda>(P, flags, file, ping_num, ud). length file)")
     (auto dest: parse_step_Reading_length)

declare parse_loop.simps [simp del]

section \<open>Claims about the Uniqueness Reducer on a single ping and about temperature\<close>

text \<open>
  Claim C10. When the accumulated dataset holds exactly one ping (\<^verbatim>\<open>profile_flag\<close> has one
  record), \<^verbatim>\<open>_check_uniqueness\<close> returns the dataset as it is: the test
  \<^verbatim>\<open>np.array(...).size != 1\<close> fails, so no field is collapsed and no consistency check runs.
\<close>

theorem single_ping_not_reduced:
  assumes "dd_get ud ''profile_flag'' = PList [VInt v]"
  shows "check_uniqueness reparse ud = Inr ud"
proof -
  from assms have "ud \<noteq> []" by (auto simp: dd_get_def)
  with assms show ?thesis
    by (simp add: check_uniqueness_def check_uniqueness_body_def)
qed

theorem single_ping_not_reduced_witness:
  "check_uniqueness (Inl StructError)
     [(''profile_flag'', PList [VInt 64770]), (''serial_number'', PList [VInt 7]),
      (''dig_rate'', PList [VTuple [20000]])]
   = Inr [(''profile_flag'', PList [VInt 64770]), (''serial_number'', PList [VInt 7]),
      (''dig_rate'', PList [VTuple [20000]])]"
  using single_ping_not_reduced [of "[(''profile_flag'', PList [VInt 64770]),
      (''serial_number'', PList [VInt 7]), (''dig_rate'', PList [VTuple [20000]])]"
      64770 "Inl StructError"]
  by (simp add: dd_get_def)

text \<open>
  Claim C8. When \<^verbatim>\<open>ka\<close>, \<^verbatim>\<open>kb\<close> and \<^verbatim>\<open>kc\<close> are all close to 0 (\<^verbatim>\<open>np.isclose\<close>), the
  validity flag of the parse is false and \<^verbatim>\<open>_compute_temperature\<close> returns NaN, without
  an error, for every ping and every accumulated dataset.
\<close>

theorem invalid_temperature_is_nan:
  assumes "np_isclose0 (float_params P ''ka'')"
    and "np_isclose0 (float_params P ''kb'')"
    and "np_isclose0 (float_params P ''kc'')"
  shows "temperature_is_valid (valid_flags_of P) = False
     \<and> compute_temperature P ud ping_num (temperature_is_valid (valid_flags_of P)) = Inr NaN"
  using assms by (simp add: valid_flags_of_def test_valid_params_def compute_temperature_def)

theorem invalid_temperature_is_nan_witness:
  "np_isclose0 (float_params zero_params ''ka'')
     \<and> np_isclose0 (float_params zero_params ''kb'')
     \<and> np_isclose0 (float_params zero_params ''kc'')
     \<and> temperature_is_valid (valid_flags_of zero_params) = False
     \<and> compute_temperature zero_params [(''ancillary'', PList [VTuple [1, 2, 3, 4, 30000]])] 0
          (temperature_is_valid (valid_flags_of zero_params)) = Inr NaN"
proof -
  have k: "np_isclose0 (float_params zero_params p)" for p
    by (simp add: zero_params_def np_isclose_atol_def)
  from k invalid_temperature_is_nan [OF k k k] show ?thesis by blast
qed

section \<open>Claim about the Timestamp Assembler\<close>

lemma ping_time_loop_nth:
  "ping_time_loop ud n years acc = Inr ts \<Longrightarrow>
     \<exists>new. ts = acc @ new \<and> length new = length years \<and>
       (\<forall>j < length years. ping_time_of ud (n + int j) (years ! j) = Inr (new ! j))"
proof (induction years arbitrary: n acc)
  case Nil
  then show ?case by simp
next
  case (Cons y years)
  then obtain t where t: "ping_time_of ud n y = Inr t"
    and r: "ping_time_loop ud (n + 1) years (acc @ [t]) = Inr ts"
    by (auto simp: bind_err_Inr)
  from Cons.IH [OF r] obtain new where ts: "ts = (acc @ [t]) @ new"
    and len: "length new = length years"
    and nth: "\<forall>j < length years.
        ping_time_of ud (n + 1 + int j) (years ! j) = Inr (new ! j)"
    by blast
  have "\<forall>j < length (y # years).
      ping_time_of ud (n + int j) ((y # years) ! j) = Inr ((t # new) ! j)"
  proof (intro allI impI)
    fix j assume j: "j < length (y # years)"
    show "ping_time_of ud (n + int j) ((y # years) ! j) = Inr ((t # new) ! j)"
    proof (cases j)
      case 0
      with t show ?thesis by simp
    next
      case (Suc k)
      with j nth have "ping_time_of ud (n + 1 + int k) (years ! k) = Inr (new ! k)" by simp
      with Suc show ?thesis by (simp add: add.commute add.left_commute)
    qed
  qed
  with ts len show ?case by (intro exI [of _ "t # new"]) simp
qed

lemma ms_seconds_of:
  "0 \<le> s \<Longrightarrow> s \<le> 59 \<Longrightarrow>
     ms_seconds ((a * 60 + s) * 1000) = s \<and> ((a * 60 + s) * 1000) mod 1000 = 0"
  by (simp add: ms_seconds_def)

lemma datetime_new_second:
  "datetime_new y mo d h mi s = Inr x \<Longrightarrow> dt_second x = s \<and> 0 \<le> s \<and> s \<le> 59"
  by (auto simp: datetime_new_def split: if_splits)

lemma ping_time_of_seconds:
  assumes "ping_time_of ud ping_num year = Inr t"
    and "get_int ud ''second'' ping_num = Inr second"
    and "get_int ud ''hundredths'' ping_num = Inr hundredths"
  shows "ms_seconds t = py_trunc (of_int second + of_int hundredths / 100) \<and> t mod 1000 = 0"
proof -
  from assms obtain y mo dd h mi sec d where sec: "seconds_arg second hundredths = Inr sec"
    and d: "datetime_new y mo dd h mi sec = Inr d"
    and t: "t = datetime64_ms d"
    by (auto simp: ping_time_of_def bind_err_Inr)
  from datetime_new_second [OF d] have s: "dt_second d = sec" "0 \<le> sec" "sec \<le> 59"
    by simp_all
  from sec have "sec = py_trunc (of_int second + of_int hundredths / 100)"
    by (simp add: seconds_arg_def py_int_def fl_of_int_def)
  moreover from s t have "ms_seconds t = sec \<and> t mod 1000 = 0"
    unfolding datetime64_ms_def
    using ms_seconds_of [of sec "((toordinal d - 719163) * 24 + dt_hour d) * 60 + dt_minute d"]
    by simp
  ultimately show ?thesis by simp
qed

text \<open>
  Claim C5. For every ping of a dataset on which \<^verbatim>\<open>_get_ping_time\<close> succeeds, the seconds
  component of the assembled timestamp is the integer truncation of
  \<^verbatim>\<open>second + hundredths / 100\<close>, and the timestamp is a whole number of seconds: what the
  hundredths carry below one second is dropped. With second 5 and hundredths 60 the
  seconds value is 5.
\<close>

theorem ping_time_seconds_truncated:
  assumes "get_ping_time reparse ud = Inr ping_time"
    and "i < length ping_time"
    and "get_int ud ''second'' (int i) = Inr second"
    and "get_int ud ''hundredths'' (int i) = Inr hundredths"
  shows "ms_seconds (ping_time ! i) = py_trunc (of_int second + of_int hundredths / 100)
     \<and> ping_time ! i mod 1000 = 0"
proof -
  from assms(3) have ne: "ud \<noteq> []"
    by (auto simp: get_int_def get_item_def dd_get_def py_index_def bind_err_def)
  with assms(1) have body: "get_ping_time_body ud = Inr ping_time"
    by (simp add: get_ping_time_def)
  then obtain years where loop: "ping_time_loop ud 0 years [] = Inr ping_time"
    by (auto simp: get_ping_time_body_def split: pyobj.splits)
  from ping_time_loop_nth [OF loop] assms(2)
  have "ping_time_of ud (int i) (years ! i) = Inr (ping_time ! i)" by auto
  from ping_time_of_seconds [OF this assms(3,4)] show ?thesis .
qed

lemma seconds_arg_nonneg:
  assumes "0 \<le> second" and "0 \<le> hundredths"
  shows "seconds_arg second hundredths = Inr (second + hundredths div 100)"
proof -
  have "\<lfloor>real_of_int hundredths / real_of_int 100\<rfloor> = hundredths div 100"
    by (rule floor_divide_of_int_eq)
  then have "\<lfloor>real_of_int second + real_of_int hundredths / 100\<rfloor> = second + hundredths div 100"
    by simp
  moreover from assms have "0 \<le> real_of_int second + real_of_int hundredths / 100"
    by simp
  ultimately show ?thesis
    by (simp add: seconds_arg_def py_int_def fl_of_int_def py_trunc_def)
qed

theorem ping_time_seconds_truncated_witness:
  "get_ping_time (Inl StructError) ud5 = Inr [1577934245000]
     \<and> get_int ud5 ''second'' 0 = Inr 5 \<and> get_int ud5 ''hundredths'' 0 = Inr 60
     \<and> py_trunc (of_int 5 + of_int 60 / 100) = 5
     \<and> ms_seconds 1577934245000 = 5"
proof -
  have a: "get_ping_time (Inl StructError) ud5 = Inr [1577934245000]"
    by (simp add: get_ping_time_def get_ping_time_body_def ud5_def dd_get_def ping_time_of_def
        get_int_def get_item_def py_index_def bind_err_simps seconds_arg_def py_int_def
        fl_of_int_def py_trunc_def datetime_new_def days_in_month_def datetime64_ms_def
        toordinal_def days_before_year_def days_before_month_def is_leap_def)
  have b: "get_int ud5 ''second'' 0 = Inr 5"
    by (simp add: ud5_def dd_get_def get_int_def get_item_def py_index_def bind_err_simps)
  have c: "get_int ud5 ''hundredths'' 0 = Inr 60"
    by (simp add: ud5_def dd_get_def get_int_def get_item_def py_index_def bind_err_simps)
  have d: "py_trunc (of_int 5 + of_int 60 / 100) = 5"
    by (simp add: py_trunc_def)
  from ping_time_seconds_truncated [of "Inl StructError" ud5 "[1577934245000]" 0 5 60] a b c d
  show ?thesis by simp
qed

section \<open>The accumulating dataset: every entry is still a Python list\<close>

lemma dd_get_dd_set: "dd_get (dd_set k v ud) k' = (if k' = k then v else dd_get ud k')"
  by (simp add: dd_get_def dd_set_def update_conv')

lemma unreduced_dd_set: "unreduced ud \<Longrightarrow> unreduced (dd_set k (PList xs) ud)"
  unfolding unreduced_def dd_set_def
  by (induction ud) (auto simp: is_list_def)

lemma unreduced_dd_get: "unreduced ud \<Longrightarrow> dd_get ud k = PList (pings ud k)"
proof -
  assume u: "unreduced ud"
  have "is_list (dd_get ud k)"
  proof (cases "map_of ud k")
    case None
    then show ?thesis by (simp add: dd_get_def is_list_def)
  next
    case (Some v)
    then have "(k, v) \<in> set ud" by (rule map_of_SomeD)
    with u have "is_list v" by (auto simp: unreduced_def list_all_iff)
    with Some show ?thesis by (simp add: dd_get_def)
  qed
  then show ?thesis by (simp add: pings_def is_list_def split: pyobj.splits)
qed

lemma pings_dd_set:
  "pings (dd_set k (PList xs) ud) k' = (if k' = k then xs else pings ud k')"
  by (simp add: pings_def dd_get_dd_set)

lemma dd_append_unreduced:
  "unreduced ud \<Longrightarrow> dd_append k v ud = Inr (dd_set k (PList (pings ud k @ [v])) ud)"
  by (simp add: dd_append_def unreduced_dd_get)

section \<open>The header: size of the format and the stored record\<close>

lemma py_index_nat:
  "n < length xs \<Longrightarrow> py_index xs (int n) = Inr (xs ! n)"
  by (simp add: py_index_def)

lemma py_index_numeral:
  "numeral n < length xs \<Longrightarrow> py_index xs (numeral n) = Inr (xs ! numeral n)"
  using py_index_nat [of "numeral n" xs] by simp

lemma py_index_1: "1 < length xs \<Longrightarrow> py_index xs 1 = Inr (xs ! 1)"
  using py_index_nat [of 1 xs] by simp

lemma py_slice_nonneg:
  "0 \<le> lo \<Longrightarrow> lo \<le> hi \<Longrightarrow> py_slice xs lo hi = take (nat (hi - lo)) (drop (nat lo) xs)"
  by (auto simp: py_slice_def py_slice_bound_def Let_def min_def nat_diff_distrib)

lemma py_index_0: "0 < length xs \<Longrightarrow> py_index xs 0 = Inr (xs ! 0)"
  by (simp add: py_index_def)

lemma split_fields_header:
  assumes len: "length hu = 67" and nf: "0 \<le> nf" and u: "unreduced ud"
  shows "\<exists>ud'. split_fields nf hu HEADER_FIELDS 0 ud = Inr (67, ud') \<and> unreduced ud'
     \<and> pings ud' ''profile_flag'' = pings ud ''profile_flag'' @ [VInt (hu ! 0)]
     \<and> pings ud' ''profile_number'' = pings ud ''profile_number'' @ [VInt (hu ! 1)]
     \<and> pings ud' ''serial_number'' = pings ud ''serial_number'' @ [VInt (hu ! 2)]
     \<and> pings ud' ''ping_status'' = pings ud ''ping_status'' @ [VInt (hu ! 3)]
     \<and> pings ud' ''burst_int'' = pings ud ''burst_int'' @ [VInt (hu ! 4)]
     \<and> pings ud' ''year'' = pings ud ''year'' @ [VInt (hu ! 5)]
     \<and> pings ud' ''month'' = pings ud ''month'' @ [VInt (hu ! 6)]
     \<and> pings ud' ''day'' = pings ud ''day'' @ [VInt (hu ! 7)]
     \<and> pings ud' ''hour'' = pings ud ''hour'' @ [VInt (hu ! 8)]
     \<and> pings ud' ''minute'' = pings ud ''minute'' @ [VInt (hu ! 9)]
     \<and> pings ud' ''second'' = pings ud ''second'' @ [VInt (hu ! 10)]
     \<and> pings ud' ''hundredths'' = pings ud ''hundredths'' @ [VInt (hu ! 11)]
     \<and> pings ud' ''dig_rate'' = pings ud ''dig_rate'' @ [VTuple (take (nat nf) (drop 12 hu))]
     \<and> pings ud' ''lockout_index'' = pings ud ''lockout_index'' @ [VTuple (take (nat nf) (drop 16 hu))]
     \<and> pings ud' ''num_bins'' = pings ud ''num_bins'' @ [VTuple (take (nat nf) (drop 20 hu))]
     \<and> pings ud' ''range_samples_per_bin'' = pings ud ''range_samples_per_bin'' @ [VTuple (take (nat nf) (drop 24 hu))]
     \<and> pings ud' ''ping_per_profile'' = pings ud ''ping_per_profile'' @ [VInt (hu ! 28)]
     \<and> pings ud' ''avg_pings'' = pings ud ''avg_pings'' @ [VInt (hu ! 29)]
     \<and> pings ud' ''num_acq_pings'' = pings ud ''num_acq_pings'' @ [VInt (hu ! 30)]
     \<and> pings ud' ''ping_period'' = pings ud ''ping_period'' @ [VInt (hu ! 31)]
     \<and> pings ud' ''first_ping'' = pings ud ''first_ping'' @ [VInt (hu ! 32)]
     \<and> pings ud' ''last_ping'' = pings ud ''last_ping'' @ [VInt (hu ! 33)]
     \<and> pings ud' ''data_type'' = pings ud ''data_type'' @ [VTuple (take (nat nf) (drop 34 hu))]
     \<and> pings ud' ''data_error'' = pings ud ''data_error'' @ [VInt (hu ! 38)]
     \<and> pings ud' ''phase'' = pings ud ''phase'' @ [VInt (hu ! 39)]
     \<and> pings ud' ''overrun'' = pings ud ''overrun'' @ [VInt (hu ! 40)]
     \<and> pings ud' ''num_chan'' = pings ud ''num_chan'' @ [VInt (hu ! 41)]
     \<and> pings ud' ''gain'' = pings ud ''gain'' @ [VTuple (take (nat nf) (drop 42 hu))]
     \<and> pings ud' ''spare_chan'' = pings ud ''spare_chan'' @ [VInt (hu ! 46)]
     \<and> pings ud' ''pulse_length'' = pings ud ''pulse_length'' @ [VTuple (take (nat nf) (drop 47 hu))]
     \<and> pings ud' ''board_num'' = pings ud ''board_num'' @ [VTuple (take (nat nf) (drop 51 hu))]
     \<and> pings ud' ''frequency'' = pings ud ''frequency'' @ [VTuple (take (nat nf) (drop 55 hu))]
     \<and> pings ud' ''sensor_flag'' = pings ud ''sensor_flag'' @ [VInt (hu ! 59)]
     \<and> pings ud' ''ancillary'' = pings ud ''ancillary'' @ [VTuple (take 5 (drop 60 hu))]
     \<and> pings ud' ''ad'' = pings ud ''ad'' @ [VTuple (take 2 (drop 65 hu))]"
  using assms
  by (simp add: HEADER_FIELDS_def field_w_freq_def firmware_freq_len_def
     dd_append_unreduced unreduced_dd_set pings_dd_set bind_err_simps py_index_numeral
     py_index_0 py_index_1 py_slice_nonneg)

lemma calcsize_HEADER_FORMAT: "calcsize HEADER_FORMAT = 124"
  by (simp add: HEADER_FORMAT_def code_size_def)

lemma length_unpack_HEADER_FORMAT: "length (unpack_items HEADER_FORMAT bs) = 67"
  by (simp add: HEADER_FORMAT_def)

lemma hd_unpack_HEADER_FORMAT: "unpack_items HEADER_FORMAT bs ! 0 = be_uint (take 2 bs)"
  by (simp add: HEADER_FORMAT_def code_size_def)

lemma unpack_HEADER_FORMAT:
  "unpack HEADER_FORMAT chunk = Inr hu \<longleftrightarrow>
     length chunk = 124 \<and> hu = unpack_items HEADER_FORMAT chunk"
  by (auto simp: unpack_def calcsize_HEADER_FORMAT)

text \<open>
  Claim C6. A valid frame (124 bytes available, marker 64770) is decoded from exactly the
  124 bytes of the header read: the format has size 124 and \<^verbatim>\<open>_split_header\<close> reads
  nothing more. The header count ends at 67, the number of unpacked values. Each of the
  nine frequency-dependent fields stores the first \<^verbatim>\<open>num_freq\<close> slots at its offset, and
  the offsets (12, 16, 20, 24, 34, 42, 47, 51, 55, and 28, 38, 46, 59 for the fields that
  follow) do not depend on \<^verbatim>\<open>num_freq\<close>: every such field advances the count by 4.
\<close>

theorem header_decoding_fixed_width:
  assumes "HEADER_SIZE \<le> length file"
    and "be_uint (take 2 file) = FILE_TYPE"
    and "0 \<le> num_freq P"
    and "unreduced ud"
  shows "\<exists>hu ud'.
      calcsize HEADER_FORMAT = 124
    \<and> length (fst (read_bytes file HEADER_SIZE)) = 124
    \<and> unpack HEADER_FORMAT (fst (read_bytes file HEADER_SIZE)) = Inr hu
    \<and> length hu = 67
    \<and> split_header P (snd (read_bytes file HEADER_SIZE)) hu ud = Inr (True, drop 124 file, ud')
    \<and> split_fields (num_freq P) hu HEADER_FIELDS 0 ud = Inr (67, ud')
    \<and> pings ud' ''dig_rate'' = pings ud ''dig_rate'' @ [VTuple (take (nat (num_freq P)) (drop 12 hu))]
    \<and> pings ud' ''lockout_index'' = pings ud ''lockout_index'' @ [VTuple (take (nat (num_freq P)) (drop 16 hu))]
    \<and> pings ud' ''num_bins'' = pings ud ''num_bins'' @ [VTuple (take (nat (num_freq P)) (drop 20 hu))]
    \<and> pings ud' ''range_samples_per_bin'' = pings ud ''range_samples_per_bin'' @ [VTuple (take (nat (num_freq P)) (drop 24 hu))]
    \<and> pings ud' ''ping_per_profile'' = pings ud ''ping_per_profile'' @ [VInt (hu ! 28)]
    \<and> pings ud' ''data_type'' = pings ud ''data_type'' @ [VTuple (take (nat (num_freq P)) (drop 34 hu))]
    \<and> pings ud' ''data_error'' = pings ud ''data_error'' @ [VInt (hu ! 38)]
    \<and> pings ud' ''gain'' = pings ud ''gain'' @ [VTuple (take (nat (num_freq P)) (drop 42 hu))]
    \<and> pings ud' ''spare_chan'' = pings ud ''spare_chan'' @ [VInt (hu ! 46)]
    \<and> pings ud' ''pulse_length'' = pings ud ''pulse_length'' @ [VTuple (take (nat (num_freq P)) (drop 47 hu))]
    \<and> pings ud' ''board_num'' = pings ud ''board_num'' @ [VTuple (take (nat (num_freq P)) (drop 51 hu))]
    \<and> pings ud' ''frequency'' = pings ud ''frequency'' @ [VTuple (take (nat (num_freq P)) (drop 55 hu))]
    \<and> pings ud' ''sensor_flag'' = pings ud ''sensor_flag'' @ [VInt (hu ! 59)]"
proof -
  let ?chunk = "take 124 file"
  let ?hu = "unpack_items HEADER_FORMAT ?chunk"
  from assms(1) have len: "length ?chunk = 124" by (simp add: HEADER_SIZE_def)
  have un: "unpack HEADER_FORMAT ?chunk = Inr ?hu"
    using len by (simp add: unpack_HEADER_FORMAT)
  have l67: "length ?hu = 67" by (rule length_unpack_HEADER_FORMAT)
  have flag: "?hu ! 0 = FILE_TYPE"
    using assms(2) by (simp add: hd_unpack_HEADER_FORMAT)
  from split_fields_header [OF l67 assms(3,4)] obtain ud' where
    sf: "split_fields (num_freq P) ?hu HEADER_FIELDS 0 ud = Inr (67, ud')"
    and rest: "pings ud' ''dig_rate'' = pings ud ''dig_rate'' @ [VTuple (take (nat (num_freq P)) (drop 12 ?hu))]"
      "pings ud' ''lockout_index'' = pings ud ''lockout_index'' @ [VTuple (take (nat (num_freq P)) (drop 16 ?hu))]"
      "pings ud' ''num_bins'' = pings ud ''num_bins'' @ [VTuple (take (nat (num_freq P)) (drop 20 ?hu))]"
      "pings ud' ''range_samples_per_bin'' = pings ud ''range_samples_per_bin'' @ [VTuple (take (nat (num_freq P)) (drop 24 ?hu))]"
      "pings ud' ''ping_per_profile'' = pings ud ''ping_per_profile'' @ [VInt (?hu ! 28)]"
      "pings ud' ''data_type'' = pings ud ''data_type'' @ [VTuple (take (nat (num_freq P)) (drop 34 ?hu))]"
      "pings ud' ''data_error'' = pings ud ''data_error'' @ [VInt (?hu ! 38)]"
      "pings ud' ''gain'' = pings ud ''gain'' @ [VTuple (take (nat (num_freq P)) (drop 42 ?hu))]"
      "pings ud' ''spare_chan'' = pings ud ''spare_chan'' @ [VInt (?hu ! 46)]"
      "pings ud' ''pulse_length'' = pings ud ''pulse_length'' @ [VTuple (take (nat (num_freq P)) (drop 47 ?hu))]"
      "pings ud' ''board_num'' = pings ud ''board_num'' @ [VTuple (take (nat (num_freq P)) (drop 51 ?hu))]"
      "pings ud' ''frequency'' = pings ud ''frequency'' @ [VTuple (take (nat (num_freq P)) (drop 55 ?hu))]"
      "pings ud' ''sensor_flag'' = pings ud ''sensor_flag'' @ [VInt (?hu ! 59)]"
    by blast
  have sh: "split_header P (drop 124 file) ?hu ud = Inr (True, drop 124 file, ud')"
    using flag l67 sf
    by (simp add: split_header_def split_header_fields_def py_index_0 bind_err_simps)
  show ?thesis
    apply (rule exI [of _ ?hu])
    apply (rule exI [of _ ud'])
    using len un l67 sh sf rest
    by (simp add: read_bytes_def HEADER_SIZE_def calcsize_HEADER_FORMAT)
qed

theorem header_decoding_fixed_width_witness:
  "HEADER_SIZE \<le> length magic_frame
     \<and> be_uint (take 2 magic_frame) = FILE_TYPE
     \<and> 0 \<le> num_freq zero_params
     \<and> unreduced []
     \<and> (\<exists>hu ud'.
           unpack HEADER_FORMAT (fst (read_bytes magic_frame HEADER_SIZE)) = Inr hu
         \<and> split_header zero_params (snd (read_bytes magic_frame HEADER_SIZE)) hu []
             = Inr (True, drop 124 magic_frame, ud')
         \<and> split_fields (num_freq zero_params) hu HEADER_FIELDS 0 [] = Inr (67, ud')
         \<and> pings ud' ''dig_rate'' = [VTuple (take 1 (drop 12 hu))]
         \<and> pings ud' ''frequency'' = [VTuple (take 1 (drop 55 hu))])"
proof -
  have h1: "HEADER_SIZE \<le> length magic_frame"
    by (simp add: HEADER_SIZE_def magic_frame_def)
  have h2: "be_uint (take 2 magic_frame) = FILE_TYPE"
    by (simp add: magic_frame_def FILE_TYPE_def)
  have h3: "0 \<le> num_freq zero_params"
    by (simp add: zero_params_def)
  have h4: "unreduced []"
    by (simp add: unreduced_def)
  have p: "pings [] k = []" for k
    by (simp add: pings_def dd_get_def)
  have n: "nat (num_freq zero_params) = 1"
    by (simp add: zero_params_def)
  from header_decoding_fixed_width [OF h1 h2 h3 h4] obtain hu ud' where
    "unpack HEADER_FORMAT (fst (read_bytes magic_frame HEADER_SIZE)) = Inr hu"
    "split_header zero_params (snd (read_bytes magic_frame HEADER_SIZE)) hu []
       = Inr (True, drop 124 magic_frame, ud')"
    "split_fields (num_freq zero_params) hu HEADER_FIELDS 0 [] = Inr (67, ud')"
    "pings ud' ''dig_rate'' = [VTuple (take 1 (drop 12 hu))]"
    "pings ud' ''frequency'' = [VTuple (take 1 (drop 55 hu))]"
    unfolding p n by auto
  with h1 h2 h3 h4 show ?thesis by blast
qed

section \<open>The read loop on frames with an invalid marker\<close>

lemma length_bad_magic_frame: "length bad_magic_frame = 124"
  by (simp add: bad_magic_frame_def)

lemma unpack_bad_magic_frame:
  "unpack HEADER_FORMAT bad_magic_frame = Inr bad_magic_header"
  by (simp add: unpack_def calcsize_HEADER_FORMAT length_bad_magic_frame)
     (simp add: HEADER_FORMAT_def bad_magic_frame_def bad_magic_header_def code_size_def)

lemma split_header_bad_magic:
  "split_header zero_params [] bad_magic_header [] = Inr (True, [], bad_magic_record)"
  by (simp add: split_header_def split_header_fields_def bad_magic_header_def FILE_TYPE_def
      py_index_def read_bytes_def bind_err_simps zero_params_def HEADER_FIELDS_def
      field_w_freq_def firmware_freq_len_def dd_append_def dd_get_def dd_set_def
      py_slice_def py_slice_bound_def bad_magic_record_def)

lemma accumulate_bad_magic:
  "accumulate_ping zero_params (valid_flags_of zero_params) [] 0 bad_magic_record
     = Inr (bad_magic_ping, [])"
  by (simp add: accumulate_ping_def add_counts_def bad_magic_record_def bad_magic_ping_def
      get_int_def get_item_def get_sub_def get_float_def dd_get_def dd_set_def dd_append_def
      py_index_def bind_err_simps print_status_def seconds_arg_def py_int_def py_trunc_def
      fl_of_int_def datetime_new_def days_in_month_def is_leap_def valid_flags_of_def
      test_valid_params_def zero_params_def np_isclose_atol_def compute_temperature_def
      compute_tilt_def compute_battery_def cos_tilt_mag_def)

lemma parse_loop_bad_magic:
  "parse_loop zero_params (valid_flags_of zero_params) bad_magic_frame 0 []
     = Inr (bad_magic_ping, EndOfStream)"
proof -
  have take: "take 124 bad_magic_frame = bad_magic_frame" "drop 124 bad_magic_frame = []"
    by (simp_all add: length_bad_magic_frame)
  have ne: "bad_magic_frame \<noteq> []"
    by (simp add: bad_magic_frame_def)
  have 1: "parse_step zero_params (valid_flags_of zero_params) bad_magic_frame 0 []
      = Inr (Reading bad_magic_ping [])"
    using ne
    by (simp add: parse_step_def read_bytes_def HEADER_SIZE_def take unpack_bad_magic_frame
        split_header_bad_magic accumulate_bad_magic bind_err_simps)
  have 2: "parse_step zero_params (valid_flags_of zero_params) [] 1 bad_magic_ping
      = Inr (Stopped EndOfStream bad_magic_ping)"
    by (simp add: parse_step_def read_bytes_def)
  show ?thesis
    by (subst parse_loop.simps, simp add: 1, subst parse_loop.simps, simp add: 2)
qed

text \<open>The loop on the file of one ping, alone and followed by the header with marker 0.\<close>

lemma length_first_frame: "length first_frame = 124"
  by (simp add: first_frame_def)

lemma unpack_first_frame: "unpack HEADER_FORMAT first_frame = Inr first_header"
  by (simp add: unpack_def calcsize_HEADER_FORMAT length_first_frame)
     (simp add: HEADER_FORMAT_def first_frame_def first_header_def code_size_def)

lemmas header_eval =
  split_header_def split_header_fields_def FILE_TYPE_def py_index_def read_bytes_def
  bind_err_simps zero_params_def HEADER_FIELDS_def field_w_freq_def firmware_freq_len_def
  dd_append_def dd_get_def dd_set_def py_slice_def py_slice_bound_def

lemmas ping_eval =
  accumulate_ping_def add_counts_def add_counts_channel_def get_int_def get_item_def
  get_sub_def get_float_def dd_get_def dd_set_def dd_append_def py_index_def bind_err_simps
  print_status_def seconds_arg_def py_int_def py_trunc_def fl_of_int_def datetime_new_def
  days_in_month_def is_leap_def valid_flags_of_def test_valid_params_def zero_params_def
  np_isclose_atol_def compute_temperature_def compute_tilt_def compute_battery_def
  cos_tilt_mag_def read_int_def read_bytes_def unpack_def fmt_repeat_def code_size_def

lemma split_header_first:
  "split_header zero_params raw first_header [] = Inr (True, raw, first_record)"
  by (simp add: header_eval first_header_def first_record_def)

lemma accumulate_first:
  "accumulate_ping zero_params (valid_flags_of zero_params) (first_payload @ rest) 0 first_record
     = Inr (first_ping, rest)"
  by (simp add: ping_eval first_record_def first_ping_def first_payload_def numeral_3_eq_3)

lemma parse_step_first:
  "parse_step zero_params (valid_flags_of zero_params) (first_frame @ first_payload @ rest) 0 []
     = Inr (Reading first_ping rest)"
proof -
  have ne: "first_frame \<noteq> []" by (simp add: first_frame_def)
  then show ?thesis
    by (simp add: parse_step_def read_bytes_def HEADER_SIZE_def length_first_frame
        unpack_first_frame split_header_first accumulate_first bind_err_simps)
qed

lemma split_header_second:
  "split_header zero_params [] bad_magic_header first_ping = Inr (True, [], second_record)"
  by (simp add: header_eval bad_magic_header_def first_ping_def first_record_def
      second_record_def)

lemma accumulate_second:
  "accumulate_ping zero_params (valid_flags_of zero_params) [] 1 second_record
     = Inr (both_pings, [])"
  by (simp add: ping_eval second_record_def both_pings_def)

lemma parse_step_second:
  "parse_step zero_params (valid_flags_of zero_params) bad_magic_frame 1 first_ping
     = Inr (Reading both_pings [])"
proof -
  have ne: "bad_magic_frame \<noteq> []" by (simp add: bad_magic_frame_def)
  then show ?thesis
    by (simp add: parse_step_def read_bytes_def HEADER_SIZE_def length_bad_magic_frame
        unpack_bad_magic_frame split_header_second accumulate_second bind_err_simps)
qed

lemma parse_step_end:
  "parse_step P flags [] ping_num ud = Inr (Stopped EndOfStream ud)"
  by (simp add: parse_step_def read_bytes_def)

lemma parse_loop_first:
  "parse_loop zero_params (valid_flags_of zero_params) (first_frame @ first_payload) 0 []
     = Inr (first_ping, EndOfStream)"
  using parse_step_first [of "[]"]
  by (subst parse_loop.simps, simp, subst parse_loop.simps, simp add: parse_step_end)

lemma parse_loop_first_then_bad:
  "parse_loop zero_params (valid_flags_of zero_params)
     (first_frame @ first_payload @ bad_magic_frame) 0 []
     = Inr (both_pings, EndOfStream)"
  using parse_step_first [of bad_magic_frame]
  by (subst parse_loop.simps, simp, subst parse_loop.simps, simp add: parse_step_second,
      subst parse_loop.simps, simp add: parse_step_end)

text \<open>
  The loop's reaction to the header decoder: a frame that \<^verbatim>\<open>_split_header\<close> rejects
  stops the loop with the dataset as it was, and a last read of fewer than 124 bytes makes
  \<^verbatim>\<open>struct.unpack\<close> raise.
\<close>

lemma split_header_rejects_unchanged:
  "split_header P raw hu ud = Inr (False, raw', ud') \<Longrightarrow> ud' = ud"
  by (auto simp: split_header_def bind_err_Inr Let_def
      dest!: split_header_fields_stream split: if_splits prod.splits)

lemma rejected_frame_stops_loop:
  assumes "file \<noteq> []"
    and "unpack HEADER_FORMAT (take HEADER_SIZE file) = Inr hu"
    and "split_header P (drop HEADER_SIZE file) hu ud = Inr (False, raw', ud')"
  shows "parse_loop P flags file ping_num ud = Inr (ud, UnrecognizedFrame)"
proof -
  from assms(3) have "ud' = ud" by (rule split_header_rejects_unchanged)
  with assms have "parse_step P flags file ping_num ud = Inr (Stopped UnrecognizedFrame ud)"
    by (simp add: parse_step_def read_bytes_def HEADER_SIZE_def bind_err_simps)
  then show ?thesis by (subst parse_loop.simps) simp
qed

lemma short_frame_raises:
  assumes "file \<noteq> []" and "length file < HEADER_SIZE"
  shows "parse_loop P flags file ping_num ud = Inl StructError"
proof -
  from assms have "parse_step P flags file ping_num ud = Inl StructError"
    by (simp add: parse_step_def read_bytes_def HEADER_SIZE_def unpack_def
        calcsize_HEADER_FORMAT bind_err_simps)
  then show ?thesis by (subst parse_loop.simps) simp
qed

text \<open>
  When the 124 bytes of a header are read, its marker is not 64770 and at least one byte
  follows, the loop stops as an unrecognized frame without raising and returns the dataset
  accumulated before the frame.
\<close>

lemma invalid_frame_midstream_stops:
  assumes "HEADER_SIZE + 1 \<le> length file"
    and "be_uint (take 2 file) \<noteq> FILE_TYPE"
  shows "parse_loop P flags file ping_num ud = Inr (ud, UnrecognizedFrame)"
proof -
  let ?chunk = "take 124 file"
  let ?hu = "unpack_items HEADER_FORMAT ?chunk"
  from assms(1) have len: "length ?chunk = 124" by (simp add: HEADER_SIZE_def)
  then have ne: "?chunk \<noteq> []" by auto
  have un: "unpack HEADER_FORMAT ?chunk = Inr ?hu"
    using len by (simp add: unpack_HEADER_FORMAT)
  have l67: "length ?hu = 67" by (rule length_unpack_HEADER_FORMAT)
  have flag: "?hu ! 0 \<noteq> FILE_TYPE"
    using assms(2) by (simp add: hd_unpack_HEADER_FORMAT)
  from assms(1) have more: "take 1 (drop 124 file) \<noteq> []"
    by (simp add: HEADER_SIZE_def)
  have sh: "split_header P (drop 124 file) ?hu ud = Inr (False, drop 1 (drop 124 file), ud)"
    using flag l67 more
    by (simp add: split_header_def py_index_0 bind_err_simps read_bytes_def)
  have "parse_step P flags file ping_num ud = Inr (Stopped UnrecognizedFrame ud)"
    using ne un sh
    by (simp add: parse_step_def read_bytes_def HEADER_SIZE_def bind_err_simps)
  then show ?thesis by (subst parse_loop.simps) simp
qed

lemma mismatch_probe_reads_one_byte:
  assumes "0 < length hu" and "hu ! 0 \<noteq> FILE_TYPE" and "raw \<noteq> []"
  shows "split_header P raw hu ud = Inr (False, drop 1 raw, ud)"
  using assms
  by (simp add: split_header_def py_index_0 bind_err_simps read_bytes_def)

lemma invalid_frame_midstream_stops_example:
  "HEADER_SIZE + 1 \<le> length (bad_magic_frame @ [0])
     \<and> be_uint (take 2 (bad_magic_frame @ [0])) \<noteq> FILE_TYPE
     \<and> parse_loop zero_params (valid_flags_of zero_params) (bad_magic_frame @ [0]) 1
           bad_magic_ping
         = Inr (bad_magic_ping, UnrecognizedFrame)"
proof -
  have h1: "HEADER_SIZE + 1 \<le> length (bad_magic_frame @ [0])"
    by (simp add: length_bad_magic_frame HEADER_SIZE_def)
  have h2: "be_uint (take 2 (bad_magic_frame @ [0])) \<noteq> FILE_TYPE"
    by (simp add: bad_magic_frame_def FILE_TYPE_def)
  from invalid_frame_midstream_stops [OF h1 h2] h1 h2 show ?thesis by simp
qed

text \<open>
  Claim C9. The stream is the file of one ping followed by \<open>bad_magic_frame\<close>, a header
  of 124 bytes whose marker is 0, with nothing after it. The loop reads the second header
  (non-zero bytes, invalid marker) and does not stop there: \<^verbatim>\<open>_split_header\<close> finds no
  further byte and returns \<^verbatim>\<open>True\<close>, the header is accumulated as ping 1, and the loop
  ends at the next read as end of stream with two pings instead of the one accumulated
  before the frame.
\<close>

theorem invalid_frame_at_end_is_accumulated:
  "be_uint (take 2 bad_magic_frame) \<noteq> FILE_TYPE
   \<and> parse_loop zero_params (valid_flags_of zero_params) (first_frame @ first_payload) 0 []
       = Inr (first_ping, EndOfStream)
   \<and> parse_loop zero_params (valid_flags_of zero_params)
         (first_frame @ first_payload @ bad_magic_frame) 0 []
       = Inr (both_pings, EndOfStream)
   \<and> pings both_pings ''profile_flag'' = [VInt 64770, VInt 0]
   \<and> pings both_pings ''counts'' = [VCounts [RawCounts [1, 2, 3]], VCounts []]"
proof -
  have "be_uint (take 2 bad_magic_frame) \<noteq> FILE_TYPE"
    by (simp add: bad_magic_frame_def FILE_TYPE_def)
  moreover have "pings both_pings ''profile_flag'' = [VInt 64770, VInt 0]"
    by (simp add: pings_def dd_get_def both_pings_def)
  moreover have "pings both_pings ''counts'' = [VCounts [RawCounts [1, 2, 3]], VCounts []]"
    by (simp add: pings_def dd_get_def both_pings_def)
  ultimately show ?thesis
    by (simp add: parse_loop_first parse_loop_first_then_bad)
qed

text \<open>
  Claim C2. The stream \<open>bad_magic_frame\<close> is one header of 124 bytes whose first field is 0,
  not 64770, with nothing after it (date 2020-01-02 03:04:05.60, no channel). On it
  \<^verbatim>\<open>_split_header\<close> reads one more byte, finds none, and returns \<^verbatim>\<open>True\<close> with the
  header stored; the loop accumulates the frame as ping 0 and ends at the next, empty read
  as end of stream. It does not stop as an unrecognized frame with zero pings.
\<close>

theorem bad_magic_at_end_of_stream_is_decoded:
  "length bad_magic_frame = HEADER_SIZE
     \<and> be_uint (take 2 bad_magic_frame) \<noteq> FILE_TYPE
     \<and> unpack HEADER_FORMAT bad_magic_frame = Inr bad_magic_header
     \<and> split_header zero_params [] bad_magic_header [] = Inr (True, [], bad_magic_record)
     \<and> parse_loop zero_params (valid_flags_of zero_params) bad_magic_frame 0 []
         = Inr (bad_magic_ping, EndOfStream)
     \<and> pings bad_magic_ping ''profile_flag'' = [VInt 0]
     \<and> pings bad_magic_ping ''counts'' = [VCounts []]"
proof -
  have "be_uint (take 2 bad_magic_frame) \<noteq> FILE_TYPE"
    by (simp add: bad_magic_frame_def FILE_TYPE_def)
  moreover have "pings bad_magic_ping ''profile_flag'' = [VInt 0]"
    by (simp add: pings_def dd_get_def bad_magic_ping_def bad_magic_record_def)
  moreover have "pings bad_magic_ping ''counts'' = [VCounts []]"
    by (simp add: pings_def dd_get_def bad_magic_ping_def bad_magic_record_def)
  ultimately show ?thesis
    by (simp add: length_bad_magic_frame HEADER_SIZE_def unpack_bad_magic_frame
        split_header_bad_magic parse_loop_bad_magic)
qed

section \<open>The Sample Block Decoder\<close>

lemma calcsize_replicate:
  "c \<noteq> CHR ''>'' \<Longrightarrow> calcsize (replicate m c) = m * code_size c"
  by (induction m) simp_all

lemma calcsize_fmt_repeat:
  "c \<noteq> CHR ''>'' \<Longrightarrow> calcsize (fmt_repeat c n) = nat n * code_size c"
  by (simp add: fmt_repeat_def calcsize_replicate)

lemma unpack_items_replicate:
  "c \<noteq> CHR ''>'' \<Longrightarrow>
     unpack_items (replicate m c) bs
       = map (\<lambda>i. be_uint (take (code_size c) (drop (i * code_size c) bs))) [0 ..< m]"
proof (induction m arbitrary: bs)
  case 0
  then show ?case by simp
next
  case (Suc m)
  have "map (\<lambda>i. be_uint (take (code_size c) (drop (i * code_size c) bs))) [0 ..< Suc m]
      = be_uint (take (code_size c) bs)
        # map (\<lambda>i. be_uint (take (code_size c) (drop (Suc i * code_size c) bs))) [0 ..< m]"
    by (simp add: upt_conv_Cons map_Suc_upt [symmetric] del: upt_Suc)
  with Suc show ?case by (simp add: add.commute)
qed

lemma unpack_fmt_repeat:
  assumes "c \<noteq> CHR ''>''" and "length buf = nat n * code_size c"
  shows "unpack (fmt_repeat c n) buf
     = Inr (map (\<lambda>i. be_uint (take (code_size c) (drop (i * code_size c) buf))) [0 ..< nat n])"
  using assms
  by (simp add: unpack_def calcsize_fmt_repeat) (simp add: fmt_repeat_def unpack_items_replicate)

lemma be_uint_2: "be_uint [a, b] = uint a * 256 + uint b"
  by simp

lemma take2_drop:
  "2 * i + 1 < length raw \<Longrightarrow> take 2 (drop (2 * i) raw) = [raw ! (2 * i), raw ! (2 * i + 1)]"
  by (simp add: take_Suc_conv_app_nth numeral_2_eq_2 Cons_nth_drop_Suc [symmetric])

lemma raw_channel:
  assumes nb: "get_sub ud ''num_bins'' ping_num freq_ch = Inr num_bins"
    and dt: "get_sub ud ''data_type'' ping_num freq_ch = Inr 0"
    and nn: "0 \<le> num_bins"
    and len: "2 * nat num_bins \<le> length raw"
  shows "add_counts_channel P ud ping_num raw freq_ch
     = Inr (RawCounts (map (\<lambda>i. be_uint (take 2 (drop (2 * i) raw))) [0 ..< nat num_bins]),
            drop (2 * nat num_bins) raw)"
proof -
  let ?n = "nat num_bins"
  let ?chunk = "take (2 * ?n) raw"
  from nn have rd: "read_int raw (num_bins * 2) = (?chunk, drop (2 * ?n) raw)"
    by (simp add: read_int_def read_bytes_def nat_mult_distrib mult.commute)
  from len have "length ?chunk = ?n * code_size CHR ''H''"
    by (simp add: code_size_def)
  then have un: "unpack (fmt_repeat CHR ''H'' num_bins) ?chunk
      = Inr (map (\<lambda>i. be_uint (take 2 (drop (2 * i) raw))) [0 ..< ?n])"
    using unpack_fmt_repeat [of "CHR ''H''" ?chunk num_bins]
    by (simp add: code_size_def drop_take mult.commute cong: map_cong)
  show ?thesis
    by (simp add: add_counts_channel_def nb dt rd un bind_err_simps)
qed

lemma add_counts_raw_ping:
  "add_counts zero_params [0, 1, 0, 2, 0, 3] 0 raw_ping
     = Inr (raw_ping @ [(''counts'', PList [VCounts [RawCounts [1, 2, 3]]])], [])"
  by (simp add: add_counts_def add_counts_channel_def raw_ping_def get_int_def get_sub_def
      get_item_def dd_get_def dd_set_def dd_append_def py_index_def bind_err_simps
      read_int_def read_bytes_def unpack_def fmt_repeat_def code_size_def numeral_3_eq_3)

lemma empty_channel_reads_nothing:
  assumes "get_sub ud ''num_bins'' ping_num freq_ch = Inr 0"
    and "get_sub ud ''data_type'' ping_num freq_ch = Inr 0"
  shows "add_counts_channel P ud ping_num raw freq_ch = Inr (RawCounts [], raw)"
  using assms
  by (simp add: add_counts_channel_def bind_err_simps read_int_def read_bytes_def
      unpack_def fmt_repeat_def)

lemma log_compress_unfold:
  "log_compress divisor ds m =
     (let v = np_divide (fl_of_int m) (fl_of_int divisor);
          v = fl_mul (fl_mul (fl_sub (np_log10 v) (Fin 2.5)) (fl_of_int (8 * 65535))) ds
      in if np_isinf v then Fin 0 else v)"
  by (simp add: log_compress_def clamp_inf_def log_value_def)

lemma log_compress_not_inf: "\<not> np_isinf (log_compress divisor ds m)"
  by (simp add: log_compress_unfold Let_def)

lemma log_compress_zero:
  assumes "divisor \<noteq> 0" and "ds \<noteq> Fin 0" and "ds \<noteq> NaN"
  shows "log_compress divisor ds 0 = Fin 0"
  using assms
  by (cases ds) (auto simp: log_compress_unfold Let_def fl_of_int_def fl_sub_def inf_signed_def)

lemma log_compress_zero_divisor: "log_compress 0 ds 0 = NaN"
  by (simp add: log_compress_unfold Let_def fl_of_int_def fl_sub_def inf_signed_def)

lemma log_compress_zero_DS: "divisor \<noteq> 0 \<Longrightarrow> log_compress divisor (Fin 0) 0 = NaN"
  by (simp add: log_compress_unfold Let_def fl_of_int_def fl_sub_def inf_signed_def)

lemma be_uint_4:
  "be_uint [a, b, c, d] = uint a * 16777216 + uint b * 65536 + uint c * 256 + uint d"
  by simp

text \<open>
  What an averaged channel decodes to when its \<^verbatim>\<open>5 * num_bins\<close> bytes are in the stream:
  the sums are read first, then the overflow counts, and each bin is the log-compressed
  \<open>sum + overflow * 4294967295\<close>.
\<close>

lemma averaged_channel:
  assumes nb: "get_sub ud ''num_bins'' ping_num freq_ch = Inr num_bins"
    and dt: "get_sub ud ''data_type'' ping_num freq_ch = Inr data_type"
    and avg: "data_type \<noteq> 0"
    and dv: "divisor_of ud ping_num freq_ch = Inr divisor"
    and ds: "py_index (DS P) freq_ch = Inr ds"
    and nn: "0 \<le> num_bins"
    and len: "5 * nat num_bins \<le> length raw"
  shows "add_counts_channel P ud ping_num raw freq_ch
     = Inr (AvgCounts
              (map (log_compress divisor ds)
                 (linear_sum
                    (map (\<lambda>i. be_uint (take 4 (drop (4 * i) raw))) [0 ..< nat num_bins])
                    (map (\<lambda>i. uint (raw ! (4 * nat num_bins + i))) [0 ..< nat num_bins]))),
            drop (5 * nat num_bins) raw)"
proof -
  let ?n = "nat num_bins"
  let ?c4 = "take (4 * ?n) raw"
  let ?r1 = "drop (4 * ?n) raw"
  let ?c1 = "take ?n ?r1"
  from nn have rd4: "read_int raw (num_bins * 4) = (?c4, ?r1)"
    by (simp add: read_int_def read_bytes_def nat_mult_distrib mult.commute)
  from nn have rd1: "read_int ?r1 num_bins = (?c1, drop (5 * ?n) raw)"
    by (simp add: read_int_def read_bytes_def)
  from len have l4: "length ?c4 = ?n * code_size CHR ''I''"
    by (simp add: code_size_def)
  from len have l1: "length ?c1 = ?n * code_size CHR ''B''"
    by (simp add: code_size_def)
  have ls: "unpack (fmt_repeat CHR ''I'' num_bins) ?c4
      = Inr (map (\<lambda>i. be_uint (take 4 (drop (4 * i) raw))) [0 ..< ?n])"
    using unpack_fmt_repeat [of "CHR ''I''" ?c4 num_bins] l4
    by (simp add: code_size_def drop_take mult.commute cong: map_cong)
  have "map (\<lambda>i. be_uint (take 1 (drop i ?c1))) [0 ..< ?n]
      = map (\<lambda>i. uint (raw ! (4 * ?n + i))) [0 ..< ?n]"
  proof (rule map_cong [OF refl])
    fix i assume "i \<in> set [0 ..< ?n]"
    then have i: "i < ?n" by simp
    with len have "take 1 (drop i ?c1) = [raw ! (4 * ?n + i)]"
      by (simp add: take_Suc_conv_app_nth drop_take add.commute)
    then show "be_uint (take 1 (drop i ?c1)) = uint (raw ! (4 * ?n + i))" by simp
  qed
  then have lso: "unpack (fmt_repeat CHR ''B'' num_bins) ?c1
      = Inr (map (\<lambda>i. uint (raw ! (4 * ?n + i))) [0 ..< ?n])"
    using unpack_fmt_repeat [of "CHR ''B''" ?c1 num_bins] l1
    by (simp add: code_size_def)
  show ?thesis
    using avg
    by (simp add: add_counts_channel_def nb dt dv ds rd4 rd1 ls lso bind_err_simps)
qed

lemma nth_linear_sum:
  "i < length ls \<Longrightarrow> i < length lso \<Longrightarrow>
     linear_sum ls lso ! i = ls ! i + lso ! i * 4294967295"
  by (simp add: linear_sum_def)

lemma length_linear_sum: "length (linear_sum ls lso) = min (length ls) (length lso)"
  by (simp add: linear_sum_def)

lemmas avg_eval =
  add_counts_channel_def divisor_of_def avg_ping_def get_int_def get_sub_def
  get_item_def dd_get_def py_index_def bind_err_simps read_int_def read_bytes_def unpack_def
  fmt_repeat_def code_size_def linear_sum_def zero_params_def

text \<open>
  \<^verbatim>\<open>_add_counts\<close> as a whole: on a ping whose channels are well-formed and whose payload
  is in the stream, every channel is decoded from the stream at its offset, the list of
  vectors is appended under \<^verbatim>\<open>counts\<close>, and the stream advances past the payload.
\<close>

lemma readable_Inr: "readable r \<Longrightarrow> \<exists>x. r = Inr x"
  by (cases r) (simp_all add: readable_def)

lemma chan_offset_Suc:
  "chan_offset ud ping_num (Suc ch) = chan_offset ud ping_num ch + chan_width ud ping_num ch"
  by (simp add: chan_offset_def)

lemma chan_offset_mono:
  "lo \<le> hi \<Longrightarrow> chan_offset ud ping_num lo \<le> chan_offset ud ping_num hi"
  by (induction hi) (auto simp: chan_offset_Suc le_Suc_eq)

lemma add_counts_channel_wf:
  assumes wf: "wf_channel P ud ping_num ch"
    and len: "chan_width ud ping_num ch \<le> length r"
  shows "\<exists>v. add_counts_channel P ud ping_num r (int ch)
     = Inr (v, drop (chan_width ud ping_num ch) r)"
proof -
  from wf obtain n where nb: "get_sub ud ''num_bins'' ping_num (int ch) = Inr n"
    and nn: "0 \<le> n"
    and rdt: "readable (get_sub ud ''data_type'' ping_num (int ch))"
    and avgr: "chan_averaged ud ping_num ch \<longrightarrow>
        readable (divisor_of ud ping_num (int ch)) \<and> readable (py_index (DS P) (int ch))"
    by (auto simp: wf_channel_def split: sum.splits if_splits)
  from readable_Inr [OF rdt] obtain d where dt: "get_sub ud ''data_type'' ping_num (int ch) = Inr d"
    by blast
  have bins: "chan_bins ud ping_num ch = nat n"
    by (simp add: chan_bins_def nb)
  show ?thesis
  proof (cases "d = 0")
    case True
    with dt have w: "chan_width ud ping_num ch = 2 * nat n"
      by (simp add: chan_width_def chan_averaged_def bins)
    from True dt have dt0: "get_sub ud ''data_type'' ping_num (int ch) = Inr 0" by simp
    from raw_channel [OF nb dt0 nn] len w show ?thesis by auto
  next
    case False
    with dt have a: "chan_averaged ud ping_num ch"
      by (simp add: chan_averaged_def)
    then have w: "chan_width ud ping_num ch = 5 * nat n"
      by (simp add: chan_width_def bins)
    from a avgr have "readable (divisor_of ud ping_num (int ch))"
      and "readable (py_index (DS P) (int ch))"
      by simp_all
    then obtain dv ds where
      dv: "divisor_of ud ping_num (int ch) = Inr dv"
      and ds: "py_index (DS P) (int ch) = Inr ds"
      by (auto dest!: readable_Inr)
    from averaged_channel [OF nb dt False dv ds nn] len w show ?thesis by auto
  qed
qed

lemma add_counts_loop_upt:
  assumes "\<forall>ch. lo \<le> ch \<and> ch < hi \<longrightarrow> wf_channel P ud ping_num ch"
    and "chan_offset ud ping_num hi \<le> length raw"
    and "lo \<le> hi" and "hi \<le> length vv"
  shows "\<exists>vv'. add_counts_loop P ud ping_num [lo ..< hi] (drop (chan_offset ud ping_num lo) raw) vv
        = Inr (vv', drop (chan_offset ud ping_num hi) raw)
     \<and> length vv' = length vv
     \<and> (\<forall>ch < lo. vv' ! ch = vv ! ch)
     \<and> (\<forall>ch. lo \<le> ch \<and> ch < hi \<longrightarrow>
          add_counts_channel P ud ping_num (drop (chan_offset ud ping_num ch) raw) (int ch)
            = Inr (vv' ! ch, drop (chan_offset ud ping_num (Suc ch)) raw))"
  using assms
proof (induction "hi - lo" arbitrary: lo vv)
  case 0
  then have "hi = lo" by simp
  then show ?case by auto
next
  case (Suc k)
  then have lt: "lo < hi" by simp
  let ?r = "drop (chan_offset ud ping_num lo) raw"
  from Suc.prems(1) lt have wf: "wf_channel P ud ping_num lo" by simp
  from lt have "chan_offset ud ping_num (Suc lo) \<le> chan_offset ud ping_num hi"
    by (intro chan_offset_mono) simp
  with Suc.prems(2) have enough: "chan_width ud ping_num lo \<le> length ?r"
    by (simp add: chan_offset_Suc)
  from add_counts_channel_wf [OF wf enough] obtain v where
    step: "add_counts_channel P ud ping_num ?r (int lo)
        = Inr (v, drop (chan_offset ud ping_num (Suc lo)) raw)"
    by (auto simp: chan_offset_Suc add.commute)
  have k: "k = hi - Suc lo" using Suc.hyps(2) by simp
  have wf': "\<forall>ch. Suc lo \<le> ch \<and> ch < hi \<longrightarrow> wf_channel P ud ping_num ch"
    using Suc.prems(1) by simp
  from lt have le': "Suc lo \<le> hi" by simp
  from Suc.prems(4) have len': "hi \<le> length (vv[lo := v])" by simp
  from Suc.hyps(1) [OF k wf' Suc.prems(2) le' len'] obtain vv' where
    rest: "add_counts_loop P ud ping_num [Suc lo ..< hi]
        (drop (chan_offset ud ping_num (Suc lo)) raw) (vv[lo := v])
        = Inr (vv', drop (chan_offset ud ping_num hi) raw)"
    and l: "length vv' = length (vv[lo := v])"
    and keep: "\<forall>ch < Suc lo. vv' ! ch = (vv[lo := v]) ! ch"
    and chans: "\<forall>ch. Suc lo \<le> ch \<and> ch < hi \<longrightarrow>
        add_counts_channel P ud ping_num (drop (chan_offset ud ping_num ch) raw) (int ch)
          = Inr (vv' ! ch, drop (chan_offset ud ping_num (Suc ch)) raw)"
    by blast
  from lt Suc.prems(4) have lo_in: "lo < length vv" by simp
  with keep have at_lo: "vv' ! lo = v" by simp
  from lt have upt: "[lo ..< hi] = lo # [Suc lo ..< hi]" by (rule upt_conv_Cons)
  have "add_counts_loop P ud ping_num [lo ..< hi] ?r vv
      = Inr (vv', drop (chan_offset ud ping_num hi) raw)"
    by (simp add: upt step rest bind_err_simps)
  moreover have "\<forall>ch < lo. vv' ! ch = vv ! ch"
    using keep by simp
  moreover have "\<forall>ch. lo \<le> ch \<and> ch < hi \<longrightarrow>
      add_counts_channel P ud ping_num (drop (chan_offset ud ping_num ch) raw) (int ch)
        = Inr (vv' ! ch, drop (chan_offset ud ping_num (Suc ch)) raw)"
  proof (intro allI impI)
    fix ch assume c: "lo \<le> ch \<and> ch < hi"
    show "add_counts_channel P ud ping_num (drop (chan_offset ud ping_num ch) raw) (int ch)
        = Inr (vv' ! ch, drop (chan_offset ud ping_num (Suc ch)) raw)"
    proof (cases "ch = lo")
      case True
      with step at_lo show ?thesis by simp
    next
      case False
      with c chans show ?thesis by simp
    qed
  qed
  ultimately show ?case using l by auto
qed

lemma add_counts_channels:
  assumes nc: "get_int ud ''num_chan'' ping_num = Inr num_chan"
    and wf: "wf_ping P ud ping_num (nat num_chan)"
    and len: "chan_offset ud ping_num (nat num_chan) \<le> length raw"
    and u: "unreduced ud"
  shows "\<exists>vv. add_counts P raw ping_num ud
        = Inr (dd_set ''counts'' (PList (pings ud ''counts'' @ [VCounts vv])) ud,
               drop (chan_offset ud ping_num (nat num_chan)) raw)
     \<and> length vv = nat num_chan
     \<and> (\<forall>ch < nat num_chan.
          add_counts_channel P ud ping_num (drop (chan_offset ud ping_num ch) raw) (int ch)
            = Inr (vv ! ch, drop (chan_offset ud ping_num (Suc ch)) raw))"
proof -
  let ?N = "nat num_chan"
  from wf have w: "\<forall>ch. 0 \<le> ch \<and> ch < ?N \<longrightarrow> wf_channel P ud ping_num ch"
    by (simp add: wf_ping_def list_all_iff)
  have z: "chan_offset ud ping_num 0 = 0" by (simp add: chan_offset_def)
  from add_counts_loop_upt [OF w len, of "replicate ?N EmptyList"] obtain vv where
    loop: "add_counts_loop P ud ping_num [0 ..< ?N] raw (replicate ?N EmptyList)
        = Inr (vv, drop (chan_offset ud ping_num ?N) raw)"
    and l: "length vv = ?N"
    and chans: "\<forall>ch. 0 \<le> ch \<and> ch < ?N \<longrightarrow>
        add_counts_channel P ud ping_num (drop (chan_offset ud ping_num ch) raw) (int ch)
          = Inr (vv ! ch, drop (chan_offset ud ping_num (Suc ch)) raw)"
    by (auto simp: z)
  have "add_counts P raw ping_num ud
      = Inr (dd_set ''counts'' (PList (pings ud ''counts'' @ [VCounts vv])) ud,
             drop (chan_offset ud ping_num ?N) raw)"
    by (simp add: add_counts_def nc loop bind_err_simps dd_append_unreduced [OF u])
  with l chans show ?thesis by auto
qed


lemma take2_drop_at:
  "k + 1 < length raw \<Longrightarrow> take 2 (drop k raw) = [raw ! k, raw ! (k + 1)]"
  by (simp add: take_Suc_conv_app_nth numeral_2_eq_2 Cons_nth_drop_Suc [symmetric])

lemma chan_width_le:
  assumes "ch < N" and "chan_offset ud ping_num N \<le> length raw"
  shows "chan_offset ud ping_num ch + chan_width ud ping_num ch \<le> length raw"
proof -
  from assms(1) have "chan_offset ud ping_num (Suc ch) \<le> chan_offset ud ping_num N"
    by (intro chan_offset_mono) simp
  with assms(2) show ?thesis by (simp add: chan_offset_Suc)
qed

lemmas mixed_eval =
  mixed_ping_def mixed_payload_def two_chan_params_def get_int_def get_sub_def get_item_def
  dd_get_def py_index_def bind_err_simps divisor_of_def chan_offset_def chan_width_def
  chan_averaged_def chan_bins_def wf_ping_def wf_channel_def readable_def unreduced_def
  is_list_def pings_def numeral_2_eq_2

lemma mixed_ping_facts:
  "get_int mixed_ping ''num_chan'' 0 = Inr 2"
  "wf_ping two_chan_params mixed_ping 0 (nat 2)"
  "chan_offset mixed_ping 0 (nat 2) \<le> length mixed_payload"
  "unreduced mixed_ping"
  "get_sub mixed_ping ''data_type'' 0 (int 1) = Inr 0"
  "get_sub mixed_ping ''num_bins'' 0 (int 1) = Inr 3"
  "get_sub mixed_ping ''data_type'' 0 (int 0) = Inr 1"
  "get_sub mixed_ping ''num_bins'' 0 (int 0) = Inr 1"
  "divisor_of mixed_ping 0 (int 0) = Inr 1"
  "py_index (DS two_chan_params) (int 0) = Inr (Fin 1)"
  "chan_offset mixed_ping 0 (Suc 0) = 5"
  "chan_offset mixed_ping 0 0 = 0"
  "pings mixed_ping ''counts'' = []"
  by (simp_all add: mixed_eval)

text \<open>
  Claim C7. \<^verbatim>\<open>_add_counts\<close> on a well-formed ping whose payload is in the stream: for
  every channel whose \<^verbatim>\<open>data_type\<close> flag is 0, the vector stored for the channel has
  length \<^verbatim>\<open>num_bins\<close> and its entries are the big-endian unsigned 16-bit values at the
  channel's place in the stream, unchanged. With \<^verbatim>\<open>num_bins = 0\<close> the vector is empty, and
  nothing is raised.
\<close>

theorem raw_counts_identity:
  assumes nc: "get_int ud ''num_chan'' ping_num = Inr num_chan"
    and wf: "wf_ping P ud ping_num (nat num_chan)"
    and len: "chan_offset ud ping_num (nat num_chan) \<le> length raw"
    and u: "unreduced ud"
    and ch: "ch < nat num_chan"
    and dt: "get_sub ud ''data_type'' ping_num (int ch) = Inr 0"
    and nb: "get_sub ud ''num_bins'' ping_num (int ch) = Inr num_bins"
  shows "\<exists>vv counts.
      add_counts P raw ping_num ud
        = Inr (dd_set ''counts'' (PList (pings ud ''counts'' @ [VCounts vv])) ud,
               drop (chan_offset ud ping_num (nat num_chan)) raw)
    \<and> length vv = nat num_chan
    \<and> vv ! ch = RawCounts counts
    \<and> length counts = nat num_bins
    \<and> (\<forall>i < nat num_bins.
          counts ! i = uint (raw ! (chan_offset ud ping_num ch + 2 * i)) * 256
                       + uint (raw ! (chan_offset ud ping_num ch + 2 * i + 1)))"
proof -
  let ?n = "nat num_bins"
  let ?off = "chan_offset ud ping_num ch"
  let ?r = "drop ?off raw"
  let ?counts = "map (\<lambda>i. be_uint (take 2 (drop (2 * i) ?r))) [0 ..< ?n]"
  from add_counts_channels [OF nc wf len u] ch obtain vv where
    res: "add_counts P raw ping_num ud
        = Inr (dd_set ''counts'' (PList (pings ud ''counts'' @ [VCounts vv])) ud,
               drop (chan_offset ud ping_num (nat num_chan)) raw)"
    and l: "length vv = nat num_chan"
    and c: "add_counts_channel P ud ping_num ?r (int ch)
        = Inr (vv ! ch, drop (chan_offset ud ping_num (Suc ch)) raw)"
    by blast
  from wf ch have "wf_channel P ud ping_num ch"
    by (simp add: wf_ping_def list_all_iff)
  with nb have nn: "0 \<le> num_bins" by (simp add: wf_channel_def)
  from dt nb have w: "chan_width ud ping_num ch = 2 * ?n"
    by (simp add: chan_width_def chan_averaged_def chan_bins_def)
  from chan_width_le [OF ch len] w have enough: "?off + 2 * ?n \<le> length raw" by simp
  then have "2 * ?n \<le> length ?r" by simp
  from raw_channel [OF nb dt nn this, of P] c have v: "vv ! ch = RawCounts ?counts" by simp
  have "\<forall>i < ?n. ?counts ! i = uint (raw ! (?off + 2 * i)) * 256 + uint (raw ! (?off + 2 * i + 1))"
  proof (intro allI impI)
    fix i assume i: "i < ?n"
    with enough have "?off + 2 * i + 1 < length raw" by simp
    from take2_drop_at [OF this]
    have "take 2 (drop (2 * i) ?r) = [raw ! (?off + 2 * i), raw ! (?off + 2 * i + 1)]"
      by (simp add: add.commute)
    with i show "?counts ! i = uint (raw ! (?off + 2 * i)) * 256 + uint (raw ! (?off + 2 * i + 1))"
      by simp
  qed
  with res l v show ?thesis by (intro exI [of _ vv] exI [of _ ?counts]) simp
qed

theorem raw_counts_identity_witness:
  "get_int mixed_ping ''num_chan'' 0 = Inr 2
     \<and> wf_ping two_chan_params mixed_ping 0 (nat 2)
     \<and> chan_offset mixed_ping 0 (nat 2) \<le> length mixed_payload
     \<and> unreduced mixed_ping
     \<and> get_sub mixed_ping ''data_type'' 0 (int 1) = Inr 0
     \<and> get_sub mixed_ping ''num_bins'' 0 (int 1) = Inr 3
     \<and> (\<exists>vv counts.
           add_counts two_chan_params mixed_payload 0 mixed_ping
             = Inr (dd_set ''counts'' (PList [VCounts vv]) mixed_ping,
                    drop (chan_offset mixed_ping 0 (nat 2)) mixed_payload)
         \<and> length vv = nat 2 \<and> vv ! 1 = RawCounts counts \<and> length counts = nat 3
         \<and> counts ! 0 = 1 \<and> counts ! 1 = 2 \<and> counts ! 2 = 3)"
proof -
  note f = mixed_ping_facts
  have ch: "1 < nat 2" by simp
  from raw_counts_identity [OF f(1,2,3,4) ch f(5,6)] obtain vv counts where
    r: "add_counts two_chan_params mixed_payload 0 mixed_ping
          = Inr (dd_set ''counts'' (PList [VCounts vv]) mixed_ping,
                 drop (chan_offset mixed_ping 0 (nat 2)) mixed_payload)"
    and l: "length vv = nat 2" "vv ! 1 = RawCounts counts" "length counts = nat 3"
    and v: "\<forall>i < nat 3. counts ! i
          = uint (mixed_payload ! (chan_offset mixed_ping 0 1 + 2 * i)) * 256
            + uint (mixed_payload ! (chan_offset mixed_ping 0 1 + 2 * i + 1))"
    unfolding f(13) by auto
  from v [rule_format, of 0] v [rule_format, of 1] v [rule_format, of 2]
  have "counts ! 0 = 1" "counts ! 1 = 2" "counts ! 2 = 3"
    by (simp_all add: f(11) mixed_payload_def)
  with r l f show ?thesis by blast
qed

text \<open>
  Claim C4, as amended. \<^verbatim>\<open>_add_counts\<close> on a well-formed ping whose payload is in the
  stream: for every channel whose \<^verbatim>\<open>data_type\<close> flag is not 0, each entry of the decoded
  vector is the log-compressed value of its bin, with 0 in its place when that value is
  infinite and the value itself otherwise, a NaN included. A bin with sum 0 and overflow
  0 decodes to exactly 0 when the divisor is not 0 and \<^verbatim>\<open>DS[channel]\<close> is neither 0 nor
  NaN.
\<close>

theorem averaged_counts_clamp_infinities:
  assumes nc: "get_int ud ''num_chan'' ping_num = Inr num_chan"
    and wf: "wf_ping P ud ping_num (nat num_chan)"
    and len: "chan_offset ud ping_num (nat num_chan) \<le> length raw"
    and u: "unreduced ud"
    and ch: "ch < nat num_chan"
    and dt: "get_sub ud ''data_type'' ping_num (int ch) = Inr data_type"
    and avg: "data_type \<noteq> 0"
    and nb: "get_sub ud ''num_bins'' ping_num (int ch) = Inr num_bins"
    and dv: "divisor_of ud ping_num (int ch) = Inr divisor"
    and ds: "py_index (DS P) (int ch) = Inr ds"
  shows "\<exists>vv vs.
      add_counts P raw ping_num ud
        = Inr (dd_set ''counts'' (PList (pings ud ''counts'' @ [VCounts vv])) ud,
               drop (chan_offset ud ping_num (nat num_chan)) raw)
    \<and> length vv = nat num_chan
    \<and> vv ! ch = AvgCounts vs
    \<and> length vs = nat num_bins
    \<and> (\<forall>i < nat num_bins.
          vs ! i =
            (let v = log_value divisor ds
                       (bin_sum raw (chan_offset ud ping_num ch) i
                        + bin_overflow raw (chan_offset ud ping_num ch) (nat num_bins) i
                          * 4294967295)
             in if np_isinf v then Fin 0 else v))
    \<and> (divisor \<noteq> 0 \<and> ds \<noteq> Fin 0 \<and> ds \<noteq> NaN \<longrightarrow>
         (\<forall>i < nat num_bins.
            bin_sum raw (chan_offset ud ping_num ch) i = 0
            \<and> bin_overflow raw (chan_offset ud ping_num ch) (nat num_bins) i = 0
            \<longrightarrow> vs ! i = Fin 0))"
proof -
  let ?n = "nat num_bins"
  let ?off = "chan_offset ud ping_num ch"
  let ?r = "drop ?off raw"
  let ?ls = "map (\<lambda>i. be_uint (take 4 (drop (4 * i) ?r))) [0 ..< ?n]"
  let ?lso = "map (\<lambda>i. uint (?r ! (4 * ?n + i))) [0 ..< ?n]"
  let ?vs = "map (log_compress divisor ds) (linear_sum ?ls ?lso)"
  let ?m = "\<lambda>i. bin_sum raw ?off i + bin_overflow raw ?off ?n i * 4294967295"
  from add_counts_channels [OF nc wf len u] ch obtain vv where
    res: "add_counts P raw ping_num ud
        = Inr (dd_set ''counts'' (PList (pings ud ''counts'' @ [VCounts vv])) ud,
               drop (chan_offset ud ping_num (nat num_chan)) raw)"
    and l: "length vv = nat num_chan"
    and c: "add_counts_channel P ud ping_num ?r (int ch)
        = Inr (vv ! ch, drop (chan_offset ud ping_num (Suc ch)) raw)"
    by blast
  from wf ch have "wf_channel P ud ping_num ch"
    by (simp add: wf_ping_def list_all_iff)
  with nb have nn: "0 \<le> num_bins" by (simp add: wf_channel_def)
  from dt avg nb have w: "chan_width ud ping_num ch = 5 * ?n"
    by (simp add: chan_width_def chan_averaged_def chan_bins_def)
  from chan_width_le [OF ch len] w have enough: "?off + 5 * ?n \<le> length raw" by simp
  then have "5 * ?n \<le> length ?r" by simp
  from averaged_channel [OF nb dt avg dv ds nn this] c
  have v: "vv ! ch = AvgCounts ?vs" by simp
  have lv: "length ?vs = ?n"
    by (simp add: length_linear_sum)
  have nth: "?vs ! i = log_compress divisor ds (?m i)" if "i < ?n" for i
  proof -
    from that enough have "?off + (4 * ?n + i) \<le> length raw" by simp
    then have "?r ! (4 * ?n + i) = raw ! (?off + 4 * ?n + i)"
      by (simp add: add.assoc)
    with that show ?thesis
      by (simp add: length_linear_sum nth_linear_sum bin_sum_def bin_overflow_def
          add.commute)
  qed
  have clamp: "\<forall>i < ?n. ?vs ! i =
      (let v = log_value divisor ds (?m i) in if np_isinf v then Fin 0 else v)"
    using nth by (simp add: log_compress_def clamp_inf_def Let_def)
  have zero: "\<forall>i < ?n. bin_sum raw ?off i = 0 \<and> bin_overflow raw ?off ?n i = 0
      \<longrightarrow> ?vs ! i = Fin 0"
    if "divisor \<noteq> 0" "ds \<noteq> Fin 0" "ds \<noteq> NaN"
    using nth log_compress_zero [OF that] by simp
  from res l v lv clamp zero show ?thesis
    by (intro exI [of _ vv] exI [of _ ?vs]) blast
qed

theorem averaged_counts_clamp_infinities_witness:
  "get_int mixed_ping ''num_chan'' 0 = Inr 2
     \<and> wf_ping two_chan_params mixed_ping 0 (nat 2)
     \<and> chan_offset mixed_ping 0 (nat 2) \<le> length mixed_payload
     \<and> unreduced mixed_ping
     \<and> get_sub mixed_ping ''data_type'' 0 (int 0) = Inr 1
     \<and> get_sub mixed_ping ''num_bins'' 0 (int 0) = Inr 1
     \<and> divisor_of mixed_ping 0 (int 0) = Inr 1
     \<and> py_index (DS two_chan_params) (int 0) = Inr (Fin 1)
     \<and> log_value 1 (Fin 1) 0 = NInf
     \<and> (\<exists>vv vs.
           add_counts two_chan_params mixed_payload 0 mixed_ping
             = Inr (dd_set ''counts'' (PList [VCounts vv]) mixed_ping,
                    drop (chan_offset mixed_ping 0 (nat 2)) mixed_payload)
         \<and> length vv = nat 2 \<and> vv ! 0 = AvgCounts vs \<and> length vs = nat 1
         \<and> vs ! 0 = Fin 0)"
proof -
  note f = mixed_ping_facts
  have ch: "0 < nat 2" by simp
  have ne: "(1::int) \<noteq> 0" by simp
  have lv: "log_value 1 (Fin 1) 0 = NInf"
    by (simp add: log_value_def fl_of_int_def fl_sub_def inf_signed_def)
  have m: "bin_sum mixed_payload 0 0 = 0" "bin_overflow mixed_payload 0 (Suc 0) 0 = 0"
    by (simp_all add: bin_sum_def bin_overflow_def mixed_payload_def)
  from averaged_counts_clamp_infinities [OF f(1,2,3,4) ch f(7) ne f(8,9,10)]
  obtain vv vs where
    r: "add_counts two_chan_params mixed_payload 0 mixed_ping
          = Inr (dd_set ''counts'' (PList [VCounts vv]) mixed_ping,
                 drop (chan_offset mixed_ping 0 (nat 2)) mixed_payload)"
    and l: "length vv = nat 2" "vv ! 0 = AvgCounts vs" "length vs = nat 1"
    and v: "\<forall>i < nat 1. vs ! i =
          (let v = log_value 1 (Fin 1)
                     (bin_sum mixed_payload (chan_offset mixed_ping 0 0) i
                      + bin_overflow mixed_payload (chan_offset mixed_ping 0 0) (nat 1) i
                        * 4294967295)
           in if np_isinf v then Fin 0 else v)"
    unfolding f(13) by auto
  from v [rule_format, of 0] have "vs ! 0 = Fin 0"
    by (simp add: f(12) m lv)
  with r l f lv show ?thesis by blast
qed

text \<open>
  Claim C4 as stated fails: with \<^verbatim>\<open>range_samples_per_bin = 0\<close> the divisor is 0, the bin
  with sum 0 and overflow 0 is \<open>0 / 0\<close>, a NaN, and the NaN is what the channel decodes to.
\<close>

theorem zero_bin_zero_divisor_is_nan:
  "add_counts zero_params [0, 0, 0, 0, 0] 0 (avg_ping 0)
     = Inr (avg_ping 0 @ [(''counts'', PList [VCounts [AvgCounts [NaN]]])], [])
   \<and> log_value 0 (Fin 1) 0 = NaN
   \<and> NaN \<noteq> Fin 0"
proof -
  have "add_counts_channel zero_params (avg_ping 0) 0 [0, 0, 0, 0, 0] 0
      = Inr (AvgCounts [NaN], [])"
    by (simp add: avg_eval log_compress_zero_divisor)
  then have "add_counts zero_params [0, 0, 0, 0, 0] 0 (avg_ping 0)
      = Inr (avg_ping 0 @ [(''counts'', PList [VCounts [AvgCounts [NaN]]])], [])"
    by (simp add: add_counts_def bind_err_simps)
       (simp add: avg_ping_def get_int_def get_item_def dd_get_def py_index_def
          bind_err_simps dd_append_def dd_set_def)
  moreover have "log_value 0 (Fin 1) 0 = NaN"
    by (simp add: log_value_def fl_of_int_def fl_sub_def inf_signed_def)
  ultimately show ?thesis by simp
qed

lemma log_compress_unit:
  "0 < m \<Longrightarrow> log_compress 1 (Fin 1) m = Fin ((log 10 (of_int m) - 2.5) * 524280)"
  by (simp add: log_compress_unfold Let_def fl_of_int_def fl_sub_def)

text \<open>
  Claim C1. A channel with \<^verbatim>\<open>data_type = 1\<close>, one bin, divisor 1 and \<^verbatim>\<open>DS = 1\<close>, whose
  bin has sum 0 and overflow 1: the magnitude the code reconstructs is 4294967295, and the
  decoded value is the log-compression of 4294967295, which is not that of
  \<open>0 + 1 * 2 ^ 32\<close>.
\<close>

theorem overflow_weight_is_not_two_to_32:
  "add_counts_channel zero_params (avg_ping 1) 0 [0, 0, 0, 0, 1] 0
     = Inr (AvgCounts [log_compress 1 (Fin 1) 4294967295], [])
   \<and> linear_sum [0] [1] = [4294967295]
   \<and> (0::int) + 1 * 2 ^ 32 = 4294967296
   \<and> log_compress 1 (Fin 1) 4294967295 \<noteq> log_compress 1 (Fin 1) (0 + 1 * 2 ^ 32)"
proof -
  have "log 10 4294967295 < (log 10 4294967296 :: real)"
    by simp
  then have ne: "log 10 4294967295 \<noteq> (log 10 4294967296 :: real)"
    by (rule less_imp_neq)
  have "log_compress 1 (Fin 1) 4294967295 \<noteq> log_compress 1 (Fin 1) (0 + 1 * 2 ^ 32)"
    by (simp add: log_compress_unit ne)
  moreover have "add_counts_channel zero_params (avg_ping 1) 0 [0, 0, 0, 0, 1] 0
     = Inr (AvgCounts [log_compress 1 (Fin 1) 4294967295], [])"
    by (simp add: avg_eval)
  ultimately show ?thesis by (simp add: linear_sum_def)
qed

section \<open>The Uniqueness Reducer on the accumulated dataset\<close>

lemma the_ints_Some: "the_ints xs = Some ns \<Longrightarrow> xs = map VInt ns"
proof (induction xs arbitrary: ns)
  case Nil
  then show ?case by simp
next
  case (Cons x xs)
  then show ?case by (cases x) auto
qed

lemma the_rows_Some: "the_rows xs = Some rows \<Longrightarrow> xs = map VTuple rows"
proof (induction xs arbitrary: rows)
  case Nil
  then show ?case by simp
next
  case (Cons x xs)
  then show ?case by (cases x) auto
qed

lemma the_ints_map_VTuple: "rows \<noteq> [] \<Longrightarrow> the_ints (map VTuple rows) = None"
  by (cases rows) simp_all

lemma length_remdups_map_inj:
  "inj f \<Longrightarrow> length (remdups (map f xs)) = length (remdups xs)"
  by (metis distinct_map distinct_remdups length_map remdups_map_remdups
      remdups_id_iff_distinct subset_UNIV inj_on_subset)

lemma single_distinct:
  assumes "length (remdups xs) = 1"
  shows "sort (remdups xs) = [hd xs]"
proof -
  from assms obtain v where v: "remdups xs = [v]"
    by (cases "remdups xs") auto
  then have "set xs = {v}" by (metis set_remdups list.set(1) list.simps(15))
  moreover from this have "xs \<noteq> []" by auto
  ultimately have "hd xs = v" by (cases xs) auto
  with v show ?thesis by simp
qed

text \<open>What the two \<open>unique\<close> functions return on the fields the loop accumulates.\<close>

lemma np_unique_ints:
  assumes "the_ints xs \<noteq> None"
  shows "\<exists>q. np_unique (PList xs) = Inr q \<and> shape0 q = length (remdups xs)
     \<and> (length (remdups xs) = 1 \<longrightarrow> squeeze q = collapse (hd xs))"
proof -
  from assms obtain ns where ns: "the_ints xs = Some ns" by auto
  then have xs: "xs = map VInt ns" by (rule the_ints_Some)
  have len: "length (remdups xs) = length (remdups ns)"
    unfolding xs by (rule length_remdups_map_inj) (simp add: inj_def)
  have "squeeze (U1 (sort (remdups ns))) = collapse (hd xs)" if "length (remdups ns) = 1"
  proof -
    from that have "sort (remdups ns) = [hd ns]" by (rule single_distinct)
    moreover from that have "ns \<noteq> []" by auto
    ultimately show ?thesis by (simp add: xs hd_map)
  qed
  with ns len show ?thesis by (simp add: np_unique_def)
qed

lemma np_unique_axis0_rows:
  assumes "the_rows xs = Some rows" and "xs \<noteq> []"
    and hom: "list_all (\<lambda>r. length r = length (hd rows)) rows"
  shows "\<exists>q. np_unique_axis0 (PList xs) = Inr q \<and> shape0 q = length (remdups xs)
     \<and> (length (remdups xs) = 1 \<longrightarrow> squeeze q = collapse (hd xs))"
proof -
  from assms(1) have xs: "xs = map VTuple rows" by (rule the_rows_Some)
  with assms(2) have ne: "rows \<noteq> []" by auto
  then have ints: "the_ints xs = None" unfolding xs by (rule the_ints_map_VTuple)
  have len: "length (remdups xs) = length (remdups rows)"
    unfolding xs by (rule length_remdups_map_inj) (simp add: inj_def)
  have "squeeze (U2 (sort (remdups rows))) = collapse (hd xs)" if "length (remdups rows) = 1"
  proof -
    from that have "sort (remdups rows) = [hd rows]" by (rule single_distinct)
    with ne show ?thesis by (simp add: xs hd_map)
  qed
  with assms(1) ints hom len show ?thesis by (simp add: np_unique_axis0_def)
qed

text \<open>The loop of the reducer over a list of distinct field names.\<close>

lemma reduce_fields_all_constant:
  assumes "distinct fs"
    and "\<forall>f \<in> set fs. \<exists>q. unique (dd_get ud f) = Inr q \<and> shape0 q = 1 \<and> squeeze q = c f"
  shows "\<exists>ud'. reduce_fields unique fs ud = Inr ud'
     \<and> (\<forall>f \<in> set fs. dd_get ud' f = c f)
     \<and> (\<forall>g. g \<notin> set fs \<longrightarrow> dd_get ud' g = dd_get ud g)"
  using assms
proof (induction fs arbitrary: ud)
  case Nil
  then show ?case by simp
next
  case (Cons f fs)
  from Cons.prems obtain q where q: "unique (dd_get ud f) = Inr q" "shape0 q = 1"
    "squeeze q = c f"
    by auto
  let ?ud1 = "dd_set f (squeeze q) ud"
  from Cons.prems have f: "f \<notin> set fs" and d: "distinct fs" by simp_all
  have "\<forall>g \<in> set fs. \<exists>q. unique (dd_get ?ud1 g) = Inr q \<and> shape0 q = 1 \<and> squeeze q = c g"
    using Cons.prems(2) f by (auto simp: dd_get_dd_set)
  from Cons.IH [OF d this] obtain ud' where
    r: "reduce_fields unique fs ?ud1 = Inr ud'"
    and a: "\<forall>g \<in> set fs. dd_get ud' g = c g"
    and b: "\<forall>g. g \<notin> set fs \<longrightarrow> dd_get ud' g = dd_get ?ud1 g"
    by blast
  from q r have "reduce_fields unique (f # fs) ud = Inr ud'"
    by (simp add: bind_err_simps)
  moreover from a b f q have "\<forall>g \<in> set (f # fs). dd_get ud' g = c g"
    by (auto simp: dd_get_dd_set)
  moreover from b have "\<forall>g. g \<notin> set (f # fs) \<longrightarrow> dd_get ud' g = dd_get ud g"
    by (auto simp: dd_get_dd_set)
  ultimately show ?case by blast
qed

lemma reduce_fields_first_varying:
  assumes "distinct fs"
    and "\<forall>f \<in> set fs. \<exists>q. unique (dd_get ud f) = Inr q \<and> (shape0 q = 1) = ok f"
    and "\<exists>f \<in> set fs. \<not> ok f"
  shows "\<exists>pre f post. fs = pre @ f # post \<and> (\<forall>g \<in> set pre. ok g) \<and> \<not> ok f
     \<and> reduce_fields unique fs ud = Inl (not_constant f)"
  using assms
proof (induction fs arbitrary: ud)
  case Nil
  then show ?case by simp
next
  case (Cons f fs)
  from Cons.prems obtain q where q: "unique (dd_get ud f) = Inr q" "(shape0 q = 1) = ok f"
    by auto
  show ?case
  proof (cases "ok f")
    case False
    with q have "reduce_fields unique (f # fs) ud = Inl (not_constant f)"
      by (simp add: bind_err_simps)
    with False show ?thesis by (intro exI [of _ "[]"] exI [of _ f] exI [of _ fs]) simp
  next
    case True
    let ?ud1 = "dd_set f (squeeze q) ud"
    from Cons.prems have f: "f \<notin> set fs" and d: "distinct fs" by simp_all
    have h: "\<forall>g \<in> set fs. \<exists>q. unique (dd_get ?ud1 g) = Inr q \<and> (shape0 q = 1) = ok g"
      using Cons.prems(2) f by (auto simp: dd_get_dd_set)
    from Cons.prems(3) True have e: "\<exists>g \<in> set fs. \<not> ok g" by auto
    from Cons.IH [OF d h e] obtain pre g post where
      g: "fs = pre @ g # post" "\<forall>x \<in> set pre. ok x" "\<not> ok g"
      "reduce_fields unique fs ?ud1 = Inl (not_constant g)"
      by blast
    from q True have "reduce_fields unique (f # fs) ud = reduce_fields unique fs ?ud1"
      by (simp add: bind_err_simps)
    with g True show ?thesis
      by (intro exI [of _ "f # pre"] exI [of _ g] exI [of _ post]) simp
  qed
qed

lemma np_size_ints: "the_ints xs \<noteq> None \<Longrightarrow> np_size (PList xs) = length xs"
proof -
  assume "the_ints xs \<noteq> None"
  then obtain ns where "the_ints xs = Some ns" by auto
  then have "xs = map VInt ns" by (rule the_ints_Some)
  then show ?thesis by (simp add: comp_def sum_list_triv)
qed

lemma distinct_reduced_fields:
  "distinct field_w_freq" "distinct field_include" "set field_w_freq \<inter> set field_include = {}"
  "''profile_flag'' \<in> set field_include"
  by (simp_all add: field_w_freq_def field_include_def)

lemma accumulated_w_freq:
  assumes "accumulated n ud" and "0 < n" and "f \<in> set field_w_freq"
  shows "\<exists>q. np_unique_axis0 (dd_get ud f) = Inr q
     \<and> (shape0 q = 1) = constant_field ud f
     \<and> (constant_field ud f \<longrightarrow> squeeze q = collapse (hd (pings ud f)))"
proof -
  from assms(1) have u: "unreduced ud" by (simp add: accumulated_def)
  from assms(1,3) have l: "length (pings ud f) = n"
    and r: "case the_rows (pings ud f) of
              Some rows \<Rightarrow> list_all (\<lambda>r. length r = length (hd rows)) rows
            | None \<Rightarrow> False"
    by (auto simp: accumulated_def list_all_iff)
  from r obtain rows where rows: "the_rows (pings ud f) = Some rows"
    "list_all (\<lambda>r. length r = length (hd rows)) rows"
    by (auto split: option.splits)
  from l assms(2) have ne: "pings ud f \<noteq> []" by auto
  from np_unique_axis0_rows [OF rows(1) ne rows(2)] show ?thesis
    by (auto simp: unreduced_dd_get [OF u] constant_field_def)
qed

lemma accumulated_include:
  assumes "accumulated n ud" and "f \<in> set field_include"
  shows "\<exists>q. np_unique (dd_get ud f) = Inr q
     \<and> (shape0 q = 1) = constant_field ud f
     \<and> (constant_field ud f \<longrightarrow> squeeze q = collapse (hd (pings ud f)))"
proof -
  from assms(1) have u: "unreduced ud" by (simp add: accumulated_def)
  from assms have "the_ints (pings ud f) \<noteq> None"
    by (auto simp: accumulated_def list_all_iff)
  from np_unique_ints [OF this] show ?thesis
    by (auto simp: unreduced_dd_get [OF u] constant_field_def)
qed

lemma accumulated_guard:
  assumes "accumulated n ud" and "2 \<le> n"
  shows "ud \<noteq> [] \<and> np_size (dd_get ud ''profile_flag'') \<noteq> 1"
proof -
  from assms(1) have u: "unreduced ud" by (simp add: accumulated_def)
  from assms(1) distinct_reduced_fields(4)
  have l: "length (pings ud ''profile_flag'') = n"
    and i: "the_ints (pings ud ''profile_flag'') \<noteq> None"
    by (auto simp: accumulated_def list_all_iff)
  from l assms(2) have "pings ud ''profile_flag'' \<noteq> []" by auto
  then have "ud \<noteq> []" by (auto simp: pings_def dd_get_def)
  moreover from np_size_ints [OF i] l assms(2)
  have "np_size (dd_get ud ''profile_flag'') \<noteq> 1"
    by (simp add: unreduced_dd_get [OF u])
  ultimately show ?thesis by simp
qed

text \<open>
  The reducer on a dataset accumulated from at least two pings: when every
  expected-constant field has one distinct value, the dataset is returned with each of
  these fields collapsed to that value and every other entry unchanged; otherwise the
  \<^verbatim>\<open>ValueError\<close> names the first field, in the order of the two loops, whose values
  differ, and no dataset is returned.
\<close>

lemma reducer_collapses_or_names_first:
  assumes acc: "accumulated n ud" and n: "2 \<le> n"
  shows "if list_all (constant_field ud) reduced_fields
         then \<exists>ud'. check_uniqueness reparse ud = Inr ud'
                \<and> (\<forall>f \<in> set reduced_fields. dd_get ud' f = collapse (hd (pings ud f)))
                \<and> (\<forall>g. g \<notin> set reduced_fields \<longrightarrow> dd_get ud' g = dd_get ud g)
         else \<exists>pre f post. reduced_fields = pre @ f # post
                \<and> list_all (constant_field ud) pre \<and> \<not> constant_field ud f
                \<and> check_uniqueness reparse ud = Inl (not_constant f)"
proof -
  let ?c = "\<lambda>f. collapse (hd (pings ud f))"
  from n have pos: "0 < n" by simp
  from accumulated_guard [OF acc n]
  have cu: "check_uniqueness reparse ud
      = bind_err (reduce_fields np_unique_axis0 field_w_freq ud)
          (reduce_fields np_unique field_include)"
    by (simp add: check_uniqueness_def check_uniqueness_body_def)
  note wf = accumulated_w_freq [OF acc pos]
  note inc = accumulated_include [OF acc]
  show ?thesis
  proof (cases "\<forall>f \<in> set field_w_freq. constant_field ud f")
    case False
    have "\<forall>f \<in> set field_w_freq.
        \<exists>q. np_unique_axis0 (dd_get ud f) = Inr q \<and> (shape0 q = 1) = constant_field ud f"
      using wf by blast
    from reduce_fields_first_varying [OF distinct_reduced_fields(1) this] False
    obtain pre f post where p: "field_w_freq = pre @ f # post"
      "\<forall>g \<in> set pre. constant_field ud g" "\<not> constant_field ud f"
      "reduce_fields np_unique_axis0 field_w_freq ud = Inl (not_constant f)"
      by blast
    from p(1) have r: "reduced_fields = pre @ f # (post @ field_include)"
      by (simp add: reduced_fields_def)
    from p(4) cu have e: "check_uniqueness reparse ud = Inl (not_constant f)"
      by (simp add: bind_err_simps)
    from False have nl: "\<not> list_all (constant_field ud) reduced_fields"
      by (auto simp: reduced_fields_def list_all_iff)
    have "\<exists>pre f post. reduced_fields = pre @ f # post
        \<and> list_all (constant_field ud) pre \<and> \<not> constant_field ud f
        \<and> check_uniqueness reparse ud = Inl (not_constant f)"
      using r e p(2,3)
      by (intro exI [of _ pre] exI [of _ f] exI [of _ "post @ field_include"])
         (simp add: list_all_iff)
    with nl show ?thesis by simp
  next
    case True
    then have "\<forall>f \<in> set field_w_freq.
        \<exists>q. np_unique_axis0 (dd_get ud f) = Inr q \<and> shape0 q = 1 \<and> squeeze q = ?c f"
      using wf by blast
    from reduce_fields_all_constant [OF distinct_reduced_fields(1) this]
    obtain ud1 where r1: "reduce_fields np_unique_axis0 field_w_freq ud = Inr ud1"
      and a1: "\<forall>f \<in> set field_w_freq. dd_get ud1 f = ?c f"
      and b1: "\<forall>g. g \<notin> set field_w_freq \<longrightarrow> dd_get ud1 g = dd_get ud g"
      by blast
    from b1 distinct_reduced_fields(3)
    have same: "dd_get ud1 f = dd_get ud f" if "f \<in> set field_include" for f
      using that by auto
    from r1 cu have cu1: "check_uniqueness reparse ud = reduce_fields np_unique field_include ud1"
      by (simp add: bind_err_simps)
    show ?thesis
    proof (cases "\<forall>f \<in> set field_include. constant_field ud f")
      case False
      have "\<forall>f \<in> set field_include.
          \<exists>q. np_unique (dd_get ud1 f) = Inr q \<and> (shape0 q = 1) = constant_field ud f"
        using inc same by auto
      from reduce_fields_first_varying [OF distinct_reduced_fields(2) this] False
      obtain pre f post where p: "field_include = pre @ f # post"
        "\<forall>g \<in> set pre. constant_field ud g" "\<not> constant_field ud f"
        "reduce_fields np_unique field_include ud1 = Inl (not_constant f)"
        by blast
      from p(1) have r: "reduced_fields = (field_w_freq @ pre) @ f # post"
        by (simp add: reduced_fields_def)
      from True p(2) have c: "list_all (constant_field ud) (field_w_freq @ pre)"
        by (auto simp: list_all_iff)
      from False have nl: "\<not> list_all (constant_field ud) reduced_fields"
        by (auto simp: reduced_fields_def list_all_iff)
      have "\<exists>pre f post. reduced_fields = pre @ f # post
          \<and> list_all (constant_field ud) pre \<and> \<not> constant_field ud f
          \<and> check_uniqueness reparse ud = Inl (not_constant f)"
        using r c p(3,4) cu1
        by (intro exI [of _ "field_w_freq @ pre"] exI [of _ f] exI [of _ post]) simp
      with nl show ?thesis by simp
    next
      case inc_const: True
      then have "\<forall>f \<in> set field_include.
          \<exists>q. np_unique (dd_get ud1 f) = Inr q \<and> shape0 q = 1 \<and> squeeze q = ?c f"
        using inc same by auto
      from reduce_fields_all_constant [OF distinct_reduced_fields(2) this]
      obtain ud' where r2: "reduce_fields np_unique field_include ud1 = Inr ud'"
        and a2: "\<forall>f \<in> set field_include. dd_get ud' f = ?c f"
        and b2: "\<forall>g. g \<notin> set field_include \<longrightarrow> dd_get ud' g = dd_get ud1 g"
        by blast
      have "\<forall>f \<in> set reduced_fields. dd_get ud' f = ?c f"
        using a1 a2 b2 by (auto simp: reduced_fields_def)
      moreover have "\<forall>g. g \<notin> set reduced_fields \<longrightarrow> dd_get ud' g = dd_get ud g"
        using b1 b2 by (auto simp: reduced_fields_def)
      moreover have "list_all (constant_field ud) reduced_fields"
        using True inc_const by (auto simp: reduced_fields_def list_all_iff)
      ultimately show ?thesis using cu1 r2 by auto
    qed
  qed
qed

lemmas reducer_eval =
  n_pings_def one_record_def field_w_freq_def field_include_def reduced_fields_def
  accumulated_def unreduced_def is_list_def constant_field_def pings_def dd_get_def dd_set_def
  check_uniqueness_def check_uniqueness_body_def bind_err_simps np_unique_def
  np_unique_axis0_def not_constant_def

lemma two_pings_are_collapsed:
  "accumulated 2 two_pings
     \<and> list_all (constant_field two_pings) reduced_fields
     \<and> (\<exists>ud'. check_uniqueness (Inl StructError) two_pings = Inr ud'
           \<and> dd_get ud' ''serial_number'' = NDArray0 55017
           \<and> dd_get ud' ''frequency'' = NDArray1 [38, 125])"
proof -
  have a: "accumulated 2 two_pings"
    by (simp add: two_pings_def reducer_eval numeral_2_eq_2)
  have c: "list_all (constant_field two_pings) reduced_fields"
    by (simp add: two_pings_def reducer_eval numeral_2_eq_2)
  have s: "collapse (hd (pings two_pings ''serial_number'')) = NDArray0 55017"
    by (simp add: two_pings_def reducer_eval numeral_2_eq_2)
  have f: "collapse (hd (pings two_pings ''frequency'')) = NDArray1 [38, 125]"
    by (simp add: two_pings_def reducer_eval numeral_2_eq_2)
  have m: "''serial_number'' \<in> set reduced_fields" "''frequency'' \<in> set reduced_fields"
    by (simp_all add: reducer_eval)
  from reducer_collapses_or_names_first [OF a order_refl, of "Inl StructError"] c
  obtain ud' where "check_uniqueness (Inl StructError) two_pings = Inr ud'"
    and "\<forall>f \<in> set reduced_fields. dd_get ud' f = collapse (hd (pings two_pings f))"
    by auto
  with m s f a c show ?thesis by auto
qed

lemma single_record_is_not_collapsed:
  "list_all (constant_field (n_pings 1)) reduced_fields
     \<and> check_uniqueness (Inl StructError) (n_pings 1) = Inr (n_pings 1)
     \<and> dd_get (n_pings 1) ''serial_number'' = PList [VInt 55017]
     \<and> dd_get (n_pings 1) ''serial_number'' \<noteq> collapse (VInt 55017)"
  by (simp add: reducer_eval)

lemma differing_serial_number_is_named:
  "check_uniqueness (Inl StructError) serial_differs
     = Inl (ValueError ''Header value serial_number is not constant for each ping'')"
  by (simp add: serial_differs_def reducer_eval numeral_2_eq_2)

lemma first_ping_constant: "list_all (constant_field first_ping) reduced_fields"
  by (simp add: reduced_fields_def field_w_freq_def field_include_def constant_field_def
      pings_def dd_get_def first_ping_def first_record_def)

lemma first_ping_not_reduced:
  "check_uniqueness (Inl StructError) first_ping = Inr first_ping"
  by (simp add: check_uniqueness_def check_uniqueness_body_def dd_get_def first_ping_def
      first_record_def)

lemma first_ping_time:
  "get_ping_time (Inl StructError) first_ping = Inr [1577934245000]"
  by (simp add: get_ping_time_def get_ping_time_body_def first_ping_def first_record_def
      dd_get_def ping_time_of_def get_int_def get_item_def py_index_def bind_err_simps
      seconds_arg_def py_int_def fl_of_int_def py_trunc_def datetime_new_def
      days_in_month_def datetime64_ms_def toordinal_def days_before_year_def
      days_before_month_def is_leap_def)

lemma first_ping_finish:
  "parse_raw_finish (Inl StructError) first_ping = Inl AttributeError"
proof -
  have "astype_float64 (dd_get first_ping ''frequency'') = Inl AttributeError"
    by (simp add: astype_float64_def dd_get_def first_ping_def first_record_def)
  then show ?thesis
    by (simp add: parse_raw_finish_def first_ping_not_reduced first_ping_time bind_err_simps)
qed

text \<open>
  Claim C3. The file of one ping: the loop accumulates the dataset \<open>first_ping\<close>, in
  which every expected-constant field has one distinct value. \<^verbatim>\<open>_check_uniqueness\<close>
  returns it as it is, so \<^verbatim>\<open>serial_number\<close> is still the list of one value and not the
  scalar; the next step of \<^verbatim>\<open>parse_raw\<close>, which casts the reduced \<^verbatim>\<open>frequency\<close>
  array, raises \<^verbatim>\<open>AttributeError\<close> on the list left in its place.
\<close>

theorem single_ping_file_is_not_reduced:
  "parse_loop zero_params (valid_flags_of zero_params) (first_frame @ first_payload) 0 []
     = Inr (first_ping, EndOfStream)
   \<and> list_all (constant_field first_ping) reduced_fields
   \<and> check_uniqueness (Inl StructError) first_ping = Inr first_ping
   \<and> dd_get first_ping ''serial_number'' = PList [VInt 55017]
   \<and> dd_get first_ping ''serial_number'' \<noteq> collapse (VInt 55017)
   \<and> parse_raw_finish (Inl StructError) first_ping = Inl AttributeError"
proof -
  have "dd_get first_ping ''serial_number'' = PList [VInt 55017]"
    by (simp add: dd_get_def first_ping_def first_record_def)
  then show ?thesis
    by (simp add: parse_loop_first first_ping_constant first_ping_not_reduced
        first_ping_finish)
qed

end
